theory Spec2Isabelle
  imports Main "HOL-Library.Multiset" "HOL-Library.Product_Lexorder"
begin

section \<open>JavaScript values read from a record\<close>

text \<open>
  The score fields of a game and the point totals are JavaScript numbers, that is IEEE
  doubles. Scores are entered through \<open>parseInt\<close>, so a finite number is an integer:
  \<open>Num n\<close> is the double that holds the integer \<open>n\<close>, beside the two infinities and
  \<open>NaN\<close>; an integer that no double holds is never the result of an operation. The two
  zeros are one value here, as no operation of the source tells them apart. A field that the data layer left unset arrives as \<open>null\<close>, a property that is
  missing reads as \<open>undefined\<close>.
\<close>

datatype jsval = Num int | Infinity | NegInfinity | NaN | Null | Undefined

fun ToNumber :: "jsval \<Rightarrow> jsval" where
  "ToNumber (Num n) = Num n"
| "ToNumber Infinity = Infinity"
| "ToNumber NegInfinity = NegInfinity"
| "ToNumber NaN = NaN"
| "ToNumber Null = Num 0"
| "ToNumber Undefined = NaN"

text \<open>
  A double has 53 significant bits. An integer of at most \<open>2 ^ 53\<close> in size is a double;
  a larger one is rounded to the nearest integer with 53 significant bits, to the one
  with an even last bit when two are as near, and to an infinity from \<open>2 ^ 1024\<close> on.
  \<open>ulp_exp a\<close> is the number of low bits that do not fit.
\<close>

function ulp_exp :: "nat \<Rightarrow> nat" where
  "ulp_exp a = (if a < 2 ^ 53 then 0 else Suc (ulp_exp (a div 2)))"
  by pat_completeness auto
termination
  by (relation "measure (\<lambda>a. a)") auto

declare ulp_exp.simps [simp del]

definition round_double :: "int \<Rightarrow> jsval" where
  "round_double n =
     (if \<bar>n\<bar> \<le> 2 ^ 53 then Num n
      else
        (let a = nat \<bar>n\<bar>; e = ulp_exp a; q = a div 2 ^ e; r = a mod 2 ^ e;
             q' = (if 2 ^ e < 2 * r \<or> (2 * r = 2 ^ e \<and> odd q) then q + 1 else q);
             m = int (q' * 2 ^ e)
         in if 2 ^ 1024 \<le> m then (if n < 0 then NegInfinity else Infinity)
            else Num (if n < 0 then - m else m)))"

text \<open>\<open>a < b\<close> and \<open>a <= b\<close> on two numbers; every comparison with \<open>NaN\<close> is false.\<close>

fun less_number :: "jsval \<Rightarrow> jsval \<Rightarrow> bool" where
  "less_number (Num x) (Num y) = (x < y)"
| "less_number (Num x) Infinity = True"
| "less_number NegInfinity (Num y) = True"
| "less_number NegInfinity Infinity = True"
| "less_number _ _ = False"

fun le_number :: "jsval \<Rightarrow> jsval \<Rightarrow> bool" where
  "le_number (Num x) (Num y) = (x \<le> y)"
| "le_number (Num x) Infinity = True"
| "le_number NegInfinity (Num y) = True"
| "le_number NegInfinity NegInfinity = True"
| "le_number NegInfinity Infinity = True"
| "le_number Infinity Infinity = True"
| "le_number _ _ = False"

text \<open>\<open>a > b\<close> and \<open>a >= b\<close>: both operands go through \<open>ToNumber\<close>.\<close>

definition js_gt :: "jsval \<Rightarrow> jsval \<Rightarrow> bool" where
  "js_gt a b = less_number (ToNumber b) (ToNumber a)"

definition js_ge :: "jsval \<Rightarrow> jsval \<Rightarrow> bool" where
  "js_ge a b = le_number (ToNumber b) (ToNumber a)"

text \<open>
  The sum of two numbers is their exact sum, rounded; the sum of the two infinities and
  every sum with \<open>NaN\<close> is \<open>NaN\<close>. A difference is the sum with the negated number.
\<close>

fun add_number :: "jsval \<Rightarrow> jsval \<Rightarrow> jsval" where
  "add_number (Num x) (Num y) = round_double (x + y)"
| "add_number (Num x) Infinity = Infinity"
| "add_number (Num x) NegInfinity = NegInfinity"
| "add_number Infinity (Num y) = Infinity"
| "add_number Infinity Infinity = Infinity"
| "add_number NegInfinity (Num y) = NegInfinity"
| "add_number NegInfinity NegInfinity = NegInfinity"
| "add_number _ _ = NaN"

fun negate_number :: "jsval \<Rightarrow> jsval" where
  "negate_number (Num y) = Num (- y)"
| "negate_number Infinity = NegInfinity"
| "negate_number NegInfinity = Infinity"
| "negate_number _ = NaN"

text \<open>\<open>a + b\<close> and \<open>a - b\<close> on operands that are not strings.\<close>

definition js_add :: "jsval \<Rightarrow> jsval \<Rightarrow> jsval" where
  "js_add a b = add_number (ToNumber a) (ToNumber b)"

definition js_sub :: "jsval \<Rightarrow> jsval \<Rightarrow> jsval" where
  "js_sub a b = add_number (ToNumber a) (negate_number (ToNumber b))"

text \<open>Truthiness, \<open>a || b\<close> and \<open>a !== b\<close>.\<close>

fun truthy :: "jsval \<Rightarrow> bool" where
  "truthy (Num n) = (n \<noteq> 0)"
| "truthy Infinity = True"
| "truthy NegInfinity = True"
| "truthy NaN = False"
| "truthy Null = False"
| "truthy Undefined = False"

definition js_or :: "jsval \<Rightarrow> jsval \<Rightarrow> jsval" where
  "js_or a b = (if truthy a then a else b)"

definition js_strict_neq :: "jsval \<Rightarrow> jsval \<Rightarrow> bool" where
  "js_strict_neq a b = (if a = NaN \<or> b = NaN then True else a \<noteq> b)"


section \<open>The entities\<close>

text \<open>
  \<open>Game\<close>, \<open>Match\<close> and \<open>Pair\<close> are declared by the data layer; the records hold the
  fields the two components read. Three entities have a field \<open>id\<close> and two a field
  \<open>tournament_id\<close>: those carry the entity as a suffix.
\<close>

record Game =
  id_game :: string
  match_id :: string
  game_number :: int
  is_tie_break :: bool
  pair1_games :: jsval
  pair2_games :: jsval
  tie_break_pair1_points :: jsval
  tie_break_pair2_points :: jsval

record Match =
  id_match :: string
  tournament_id_match :: string
  pair1_id :: string
  pair2_id :: string
  status :: string
  is_finished :: bool

record Pair =
  id_pair :: string
  tournament_id_pair :: string
  player1_id :: string
  player2_id :: string
  player1_name :: string
  player2_name :: string
  created_at :: string

text \<open>
  The object \<open>calculateMatchStats\<close> returns. The counters of games and sets grow by one
  per game, as those of the matches below grow by one per match: they are kept as
  integers. The points are sums of what was entered, and are kept as doubles.
\<close>

record MatchStats =
  pair1GamesWon :: int
  pair2GamesWon :: int
  pair1SetsWon :: int
  pair2SetsWon :: int
  pair1TotalPoints :: jsval
  pair2TotalPoints :: jsval

text \<open>The objects held by the map \<open>pairStats\<close>.\<close>

record Stats =
  gamesWon :: int
  setsWon :: int
  points :: jsval
  matchesPlayed :: int

text \<open>
  A \<open>PairWithStats\<close> is the object \<open>{...pair, ...stats}\<close>: the fields of the pair
  followed by the four statistics. It is kept as its two spread parts.
\<close>

record PairWithStats =
  pair :: Pair
  stats :: Stats


section \<open>\<open>calculateMatchStats\<close> (RealTimeStandingsTable.tsx)\<close>

definition zero_match_stats :: MatchStats where
  "zero_match_stats =
     \<lparr>pair1GamesWon = 0, pair2GamesWon = 0, pair1SetsWon = 0, pair2SetsWon = 0,
      pair1TotalPoints = Num 0, pair2TotalPoints = Num 0\<rparr>"

text \<open>The body of \<open>games.forEach\<close>, on the six counters.\<close>

definition game_step :: "MatchStats \<Rightarrow> Game \<Rightarrow> MatchStats" where
  "game_step s game =
     (if is_tie_break game then
        (let s1 = (if js_gt (tie_break_pair1_points game) (tie_break_pair2_points game)
                   then s\<lparr>pair1GamesWon := pair1GamesWon s + 1\<rparr>
                   else if js_gt (tie_break_pair2_points game) (tie_break_pair1_points game)
                   then s\<lparr>pair2GamesWon := pair2GamesWon s + 1\<rparr>
                   else s);
             s2 = s1\<lparr>pair1TotalPoints :=
                        js_add (pair1TotalPoints s1) (js_or (tie_break_pair1_points game) (Num 0))\<rparr>;
             s3 = s2\<lparr>pair2TotalPoints :=
                        js_add (pair2TotalPoints s2) (js_or (tie_break_pair2_points game) (Num 0))\<rparr>
         in s3)
      else
        (let s1 = (if js_gt (pair1_games game) (pair2_games game)
                   then s\<lparr>pair1GamesWon := pair1GamesWon s + 1\<rparr>
                   else if js_gt (pair2_games game) (pair1_games game)
                   then s\<lparr>pair2GamesWon := pair2GamesWon s + 1\<rparr>
                   else s);
             s2 = s1\<lparr>pair1TotalPoints := js_add (pair1TotalPoints s1) (pair1_games game)\<rparr>;
             s3 = s2\<lparr>pair2TotalPoints := js_add (pair2TotalPoints s2) (pair2_games game)\<rparr>;
             s4 = (if js_ge (pair1_games game) (Num 6)
                   then s3\<lparr>pair1SetsWon := pair1SetsWon s3 + 1\<rparr> else s3);
             s5 = (if js_ge (pair2_games game) (Num 6)
                   then s4\<lparr>pair2SetsWon := pair2SetsWon s4 + 1\<rparr> else s4)
         in s5))"

definition calculateMatchStats :: "Match \<Rightarrow> Game list \<Rightarrow> MatchStats" where
  "calculateMatchStats match games = foldl game_step zero_match_stats games"


section \<open>\<open>pairsWithStats\<close> (RealTimeStandingsTable.tsx)\<close>

definition zero_stats :: Stats where
  "zero_stats = \<lparr>gamesWon = 0, setsWon = 0, points = Num 0, matchesPlayed = 0\<rparr>"

text \<open>
  \<open>pairStats\<close> is a \<open>Map\<close> from pair id to a mutable object. Every key has an object of
  its own, so the map is the store: a write through the reference that
  \<open>pairStats.get(k)\<close> returned is a write at key \<open>k\<close>. When a match names the same id on
  both sides the two references are one object, and the writes below land on it in the
  order of the source.
\<close>

type_synonym store = "string \<rightharpoonup> Stats"

definition upd :: "string \<Rightarrow> (Stats \<Rightarrow> Stats) \<Rightarrow> store \<Rightarrow> store" where
  "upd k f m = (case m k of None \<Rightarrow> m | Some s \<Rightarrow> m(k \<mapsto> f s))"

text \<open>\<open>pairs.forEach((pair) => pairStats.set(pair.id, {0, 0, 0, 0}))\<close>.\<close>

definition init_stats :: "Pair list \<Rightarrow> store" where
  "init_stats pairs = foldl (\<lambda>m p. m(id_pair p \<mapsto> zero_stats)) Map.empty pairs"

text \<open>The eight writes of the guarded block, in source order.\<close>

definition accumulate :: "Match \<Rightarrow> MatchStats \<Rightarrow> store \<Rightarrow> store" where
  "accumulate match matchStats pairStats =
     (let k1 = pair1_id match; k2 = pair2_id match;
          m1 = upd k1 (\<lambda>s. s\<lparr>matchesPlayed := matchesPlayed s + 1\<rparr>) pairStats;
          m2 = upd k2 (\<lambda>s. s\<lparr>matchesPlayed := matchesPlayed s + 1\<rparr>) m1;
          m3 = upd k1 (\<lambda>s. s\<lparr>gamesWon := gamesWon s + pair1GamesWon matchStats\<rparr>) m2;
          m4 = upd k1 (\<lambda>s. s\<lparr>setsWon := setsWon s + pair1SetsWon matchStats\<rparr>) m3;
          m5 = upd k1 (\<lambda>s. s\<lparr>points := js_add (points s) (pair1TotalPoints matchStats)\<rparr>) m4;
          m6 = upd k2 (\<lambda>s. s\<lparr>gamesWon := gamesWon s + pair2GamesWon matchStats\<rparr>) m5;
          m7 = upd k2 (\<lambda>s. s\<lparr>setsWon := setsWon s + pair2SetsWon matchStats\<rparr>) m6;
          m8 = upd k2 (\<lambda>s. s\<lparr>points := js_add (points s) (pair2TotalPoints matchStats)\<rparr>) m7
      in m8)"

text \<open>The body of \<open>matches.forEach\<close>.\<close>

definition match_step :: "Game list \<Rightarrow> store \<Rightarrow> Match \<Rightarrow> store" where
  "match_step allGames pairStats match =
     (if status match = ''finished'' then
        (let matchGames = filter (\<lambda>game. match_id game = id_match match) allGames in
         if length matchGames > 0 then
           (let matchStats = calculateMatchStats match matchGames in
            case pairStats (pair1_id match) of
              None \<Rightarrow> pairStats
            | Some pair1Stats \<Rightarrow>
                (case pairStats (pair2_id match) of
                   None \<Rightarrow> pairStats
                 | Some pair2Stats \<Rightarrow> accumulate match matchStats pairStats))
         else pairStats)
      else pairStats)"

definition pairStats_of :: "Pair list \<Rightarrow> Match list \<Rightarrow> Game list \<Rightarrow> store" where
  "pairStats_of pairs matches allGames =
     foldl (match_step allGames) (init_stats pairs) matches"

definition pairsWithStats :: "Pair list \<Rightarrow> Match list \<Rightarrow> Game list \<Rightarrow> PairWithStats list" where
  "pairsWithStats pairs matches allGames =
     (if length pairs = 0 \<or> length matches = 0 then
        map (\<lambda>p. \<lparr>pair = p, stats = zero_stats\<rparr>) pairs
      else
        (let pairStats = pairStats_of pairs matches allGames in
         map (\<lambda>p. \<lparr>pair = p,
                   stats = (case pairStats (id_pair p) of Some s \<Rightarrow> s | None \<Rightarrow> zero_stats)\<rparr>)
             pairs))"


section \<open>\<open>sortedPairs\<close> (RealTimeStandingsTable.tsx)\<close>

text \<open>
  \<open>localeCompare\<close> is the collation of the host; it is a parameter \<open>lc\<close> of the
  comparator, returning a negative number, zero or a positive number.
\<close>

definition display_name :: "Pair \<Rightarrow> string" where
  "display_name p = player1_name p @ ''/'' @ player2_name p"

definition compare_pairs ::
  "(string \<Rightarrow> string \<Rightarrow> int) \<Rightarrow> PairWithStats \<Rightarrow> PairWithStats \<Rightarrow> jsval" where
  "compare_pairs lc a b =
     (if js_strict_neq (points (stats b)) (points (stats a)) then
        js_sub (points (stats b)) (points (stats a))
      else if setsWon (stats b) \<noteq> setsWon (stats a) then
        Num (setsWon (stats b) - setsWon (stats a))
      else if gamesWon (stats b) \<noteq> gamesWon (stats a) then
        Num (gamesWon (stats b) - gamesWon (stats a))
      else
        (let nameA = display_name (pair a); nameB = display_name (pair b)
         in Num (lc nameA nameB)))"

text \<open>
  \<open>Array.prototype.sort\<close> reads the comparator through \<open>SortCompare\<close>, which takes
  \<open>NaN\<close> for \<open>+0\<close>, and is stable. The sort looks at the sign of the number only; an
  infinity is given here as \<open>1\<close> or \<open>- 1\<close>. For a consistent comparator every stable
  sort returns the same array; it is modelled by the stable insertion sort.
\<close>

definition SortCompare :: "('a \<Rightarrow> 'a \<Rightarrow> jsval) \<Rightarrow> 'a \<Rightarrow> 'a \<Rightarrow> int" where
  "SortCompare cmp x y =
     (case ToNumber (cmp x y) of
        Num v \<Rightarrow> v | Infinity \<Rightarrow> 1 | NegInfinity \<Rightarrow> - 1 | _ \<Rightarrow> 0)"

fun insert_sorted :: "('a \<Rightarrow> 'a \<Rightarrow> jsval) \<Rightarrow> 'a \<Rightarrow> 'a list \<Rightarrow> 'a list" where
  "insert_sorted cmp x [] = [x]"
| "insert_sorted cmp x (y # ys) =
     (if SortCompare cmp x y \<le> 0 then x # y # ys else y # insert_sorted cmp x ys)"

fun js_sort :: "('a \<Rightarrow> 'a \<Rightarrow> jsval) \<Rightarrow> 'a list \<Rightarrow> 'a list" where
  "js_sort cmp [] = []"
| "js_sort cmp (x # xs) = insert_sorted cmp x (js_sort cmp xs)"

definition sortedPairs ::
  "(string \<Rightarrow> string \<Rightarrow> int) \<Rightarrow> Pair list \<Rightarrow> Match list \<Rightarrow> Game list \<Rightarrow> PairWithStats list" where
  "sortedPairs lc pairs matches allGames =
     js_sort (compare_pairs lc) (pairsWithStats pairs matches allGames)"


section \<open>\<open>getMatchWinner\<close> (MatchCardWithResults.tsx)\<close>

record MatchWinner =
  winner :: string
  pair1Wins :: int
  pair2Wins :: int

text \<open>The body of its \<open>games.forEach\<close>, on the pair of counters.\<close>

definition winner_step :: "int \<times> int \<Rightarrow> Game \<Rightarrow> int \<times> int" where
  "winner_step w game =
     (if js_gt (pair1_games game) (pair2_games game) then (fst w + 1, snd w)
      else if js_gt (pair2_games game) (pair1_games game) then (fst w, snd w + 1)
      else w)"

definition getMatchWinner :: "Game list \<Rightarrow> MatchWinner option" where
  "getMatchWinner games =
     (if length games = 0 then None
      else
        (let w = foldl winner_step (0, 0) games;
             pair1Wins = fst w; pair2Wins = snd w
         in if pair1Wins > pair2Wins then
              Some \<lparr>winner = ''pair1'', pair1Wins = pair1Wins, pair2Wins = pair2Wins\<rparr>
            else if pair2Wins > pair1Wins then
              Some \<lparr>winner = ''pair2'', pair1Wins = pair1Wins, pair2Wins = pair2Wins\<rparr>
            else
              Some \<lparr>winner = ''tie'', pair1Wins = pair1Wins, pair2Wins = pair2Wins\<rparr>))"


section \<open>Notions used in the statements and proofs\<close>

text \<open>The games of one match, as the filter in \<open>matches.forEach\<close> selects them.\<close>

definition matchGames_of :: "Game list \<Rightarrow> Match \<Rightarrow> Game list" where
  "matchGames_of allGames match = filter (\<lambda>game. match_id game = id_match match) allGames"

text \<open>What one game adds to the six counters, and the sum of two sets of counters.\<close>

definition add_ms :: "MatchStats \<Rightarrow> MatchStats \<Rightarrow> MatchStats" where
  "add_ms s d =
     \<lparr>pair1GamesWon = pair1GamesWon s + pair1GamesWon d,
      pair2GamesWon = pair2GamesWon s + pair2GamesWon d,
      pair1SetsWon = pair1SetsWon s + pair1SetsWon d,
      pair2SetsWon = pair2SetsWon s + pair2SetsWon d,
      pair1TotalPoints = js_add (pair1TotalPoints s) (pair1TotalPoints d),
      pair2TotalPoints = js_add (pair2TotalPoints s) (pair2TotalPoints d)\<rparr>"

definition game_delta :: "Game \<Rightarrow> MatchStats" where
  "game_delta g =
     (if is_tie_break g then
        \<lparr>pair1GamesWon =
           (if js_gt (tie_break_pair1_points g) (tie_break_pair2_points g) then 1 else 0),
         pair2GamesWon =
           (if js_gt (tie_break_pair1_points g) (tie_break_pair2_points g) then 0
            else if js_gt (tie_break_pair2_points g) (tie_break_pair1_points g) then 1 else 0),
         pair1SetsWon = 0, pair2SetsWon = 0,
         pair1TotalPoints = js_or (tie_break_pair1_points g) (Num 0),
         pair2TotalPoints = js_or (tie_break_pair2_points g) (Num 0)\<rparr>
      else
        \<lparr>pair1GamesWon = (if js_gt (pair1_games g) (pair2_games g) then 1 else 0),
         pair2GamesWon =
           (if js_gt (pair1_games g) (pair2_games g) then 0
            else if js_gt (pair2_games g) (pair1_games g) then 1 else 0),
         pair1SetsWon = (if js_ge (pair1_games g) (Num 6) then 1 else 0),
         pair2SetsWon = (if js_ge (pair2_games g) (Num 6) then 1 else 0),
         pair1TotalPoints = pair1_games g,
         pair2TotalPoints = pair2_games g\<rparr>)"

text \<open>What a counted match writes to the object of side 1 and to the object of side 2.\<close>

definition side1 :: "MatchStats \<Rightarrow> Stats \<Rightarrow> Stats" where
  "side1 ms s = s\<lparr>matchesPlayed := matchesPlayed s + 1,
                   gamesWon := gamesWon s + pair1GamesWon ms,
                   setsWon := setsWon s + pair1SetsWon ms,
                   points := js_add (points s) (pair1TotalPoints ms)\<rparr>"

definition side2 :: "MatchStats \<Rightarrow> Stats \<Rightarrow> Stats" where
  "side2 ms s = s\<lparr>matchesPlayed := matchesPlayed s + 1,
                   gamesWon := gamesWon s + pair2GamesWon ms,
                   setsWon := setsWon s + pair2SetsWon ms,
                   points := js_add (points s) (pair2TotalPoints ms)\<rparr>"

definition effect :: "Game list \<Rightarrow> Match \<Rightarrow> string \<Rightarrow> Stats \<Rightarrow> Stats" where
  "effect allGames match k =
     (\<lambda>s. let ms = calculateMatchStats match (matchGames_of allGames match);
              s1 = (if k = pair1_id match then side1 ms s else s)
          in if k = pair2_id match then side2 ms s1 else s1)"

text \<open>The two guards on the status and on the games, and all three guards of the loop body.\<close>

definition counted :: "Game list \<Rightarrow> Match \<Rightarrow> bool" where
  "counted allGames match =
     (status match = ''finished'' \<and> matchGames_of allGames match \<noteq> [])"

definition applies :: "string set \<Rightarrow> Game list \<Rightarrow> Match \<Rightarrow> bool" where
  "applies D allGames match =
     (counted allGames match \<and> pair1_id match \<in> D \<and> pair2_id match \<in> D)"

text \<open>The entry that the final \<open>pairs.map\<close> builds for a pair.\<close>

definition entry :: "store \<Rightarrow> Pair \<Rightarrow> PairWithStats" where
  "entry S p = \<lparr>pair = p, stats = (case S (id_pair p) of Some s \<Rightarrow> s | None \<Rightarrow> zero_stats)\<rparr>"

text \<open>
  The three numbers the comparator reads before the names, as a triple in its
  lexicographic order: a greater triple is a better rank.
\<close>

definition rank_key :: "PairWithStats \<Rightarrow> int \<times> int \<times> int" where
  "rank_key e =
     ((case points (stats e) of Num n \<Rightarrow> n | _ \<Rightarrow> 0), setsWon (stats e), gamesWon (stats e))"

text \<open>The number that \<open>SortCompare\<close> hands to the sort, for a value that is a number.\<close>

definition sort_value :: "jsval \<Rightarrow> int" where
  "sort_value v = (case v of Num v \<Rightarrow> v | Infinity \<Rightarrow> 1 | NegInfinity \<Rightarrow> - 1 | _ \<Rightarrow> 0)"

text \<open>
  A value that is a finite number, and a game that adds finite numbers to the points of
  both sides: its counts are integers, or \<open>null\<close> and then read as zero.
\<close>

definition is_number :: "jsval \<Rightarrow> bool" where
  "is_number v = (case v of Num n \<Rightarrow> True | _ \<Rightarrow> False)"

definition well_scored :: "Game \<Rightarrow> bool" where
  "well_scored g =
     (is_number (ToNumber (pair1TotalPoints (game_delta g)))
      \<and> is_number (ToNumber (pair2TotalPoints (game_delta g))))"

text \<open>
  The integer a value adds to a sum, the size of what a game adds to the points of the
  two sides, and the sum of these sizes over the games of every match. While this sum is
  at most \<open>2 ^ 53\<close>, every point total and every partial sum on the way to it is an
  integer of at most that size, and no sum is rounded.
\<close>

definition count_of :: "jsval \<Rightarrow> int" where
  "count_of v = (case ToNumber v of Num n \<Rightarrow> n | _ \<Rightarrow> 0)"

definition weight :: "Game \<Rightarrow> int" where
  "weight g = \<bar>count_of (pair1TotalPoints (game_delta g))\<bar>
            + \<bar>count_of (pair2TotalPoints (game_delta g))\<bar>"

definition total_weight :: "Match list \<Rightarrow> Game list \<Rightarrow> int" where
  "total_weight matches allGames =
     (\<Sum>m\<leftarrow>matches. \<Sum>g\<leftarrow>matchGames_of allGames m. weight g)"

text \<open>The six counters of a list of games when no sum is rounded.\<close>

definition sum_ms :: "Game list \<Rightarrow> MatchStats" where
  "sum_ms games =
     \<lparr>pair1GamesWon = (\<Sum>g\<leftarrow>games. pair1GamesWon (game_delta g)),
      pair2GamesWon = (\<Sum>g\<leftarrow>games. pair2GamesWon (game_delta g)),
      pair1SetsWon = (\<Sum>g\<leftarrow>games. pair1SetsWon (game_delta g)),
      pair2SetsWon = (\<Sum>g\<leftarrow>games. pair2SetsWon (game_delta g)),
      pair1TotalPoints = Num (\<Sum>g\<leftarrow>games. count_of (pair1TotalPoints (game_delta g))),
      pair2TotalPoints = Num (\<Sum>g\<leftarrow>games. count_of (pair2TotalPoints (game_delta g)))\<rparr>"

text \<open>
  What the loop over the matches has written to the object of key \<open>k\<close>: for each of the
  three counters the sum of what every match adds, a match adding to its side 1, to its
  side 2, to both when they are one pair, and nothing when a guard stops it; for the
  points the values added, in the order of the additions.
\<close>

definition match_stats_of :: "Game list \<Rightarrow> Match \<Rightarrow> MatchStats" where
  "match_stats_of allGames m = calculateMatchStats m (matchGames_of allGames m)"

definition contrib ::
  "(MatchStats \<Rightarrow> int) \<Rightarrow> (MatchStats \<Rightarrow> int) \<Rightarrow> string set \<Rightarrow> Game list \<Rightarrow> Match \<Rightarrow> string \<Rightarrow> int"
  where
  "contrib f1 f2 D allGames m k =
     (if applies D allGames m then
        (if k = pair1_id m then f1 (match_stats_of allGames m) else 0)
        + (if k = pair2_id m then f2 (match_stats_of allGames m) else 0)
      else 0)"

definition point_contribs :: "string set \<Rightarrow> Game list \<Rightarrow> Match \<Rightarrow> string \<Rightarrow> jsval list" where
  "point_contribs D allGames m k =
     (if applies D allGames m then
        (if k = pair1_id m then [pair1TotalPoints (match_stats_of allGames m)] else [])
        @ (if k = pair2_id m then [pair2TotalPoints (match_stats_of allGames m)] else [])
      else [])"

definition accumulated :: "string set \<Rightarrow> Game list \<Rightarrow> Match list \<Rightarrow> string \<Rightarrow> Stats \<Rightarrow> Stats" where
  "accumulated D allGames ms k s =
     \<lparr>gamesWon = gamesWon s + (\<Sum>m\<leftarrow>ms. contrib pair1GamesWon pair2GamesWon D allGames m k),
      setsWon = setsWon s + (\<Sum>m\<leftarrow>ms. contrib pair1SetsWon pair2SetsWon D allGames m k),
      points = foldl js_add (points s) (concat (map (\<lambda>m. point_contribs D allGames m k) ms)),
      matchesPlayed = matchesPlayed s + (\<Sum>m\<leftarrow>ms. contrib (\<lambda>_. 1) (\<lambda>_. 1) D allGames m k)\<rparr>"

text \<open>
  The number whose sign the comparator returns for two entries with finite point totals:
  the first difference in the chain that is not zero, or the comparison of the names.
\<close>

definition chain_value :: "(string \<Rightarrow> string \<Rightarrow> int) \<Rightarrow> PairWithStats \<Rightarrow> PairWithStats \<Rightarrow> int" where
  "chain_value lc a b =
     (if count_of (points (stats b)) \<noteq> count_of (points (stats a)) then
        count_of (points (stats b)) - count_of (points (stats a))
      else if setsWon (stats b) \<noteq> setsWon (stats a) then
        setsWon (stats b) - setsWon (stats a)
      else if gamesWon (stats b) \<noteq> gamesWon (stats a) then
        gamesWon (stats b) - gamesWon (stats a)
      else lc (display_name (pair a)) (display_name (pair b)))"


section \<open>Example data\<close>

definition example_game :: "bool \<Rightarrow> jsval \<Rightarrow> jsval \<Rightarrow> jsval \<Rightarrow> jsval \<Rightarrow> Game" where
  "example_game tb g1 g2 t1 t2 =
     \<lparr>id_game = ''g1'', match_id = ''m1'', game_number = 1, is_tie_break = tb,
      pair1_games = g1, pair2_games = g2,
      tie_break_pair1_points = t1, tie_break_pair2_points = t2\<rparr>"

text \<open>The three normal games 6-2, 4-6 and 7-6 of one match.\<close>

definition example_games :: "Game list" where
  "example_games =
     [example_game False (Num 6) (Num 2) (Num 0) (Num 0),
      (example_game False (Num 4) (Num 6) (Num 0) (Num 0))\<lparr>id_game := ''g2'', game_number := 2\<rparr>,
      (example_game False (Num 7) (Num 6) (Num 0) (Num 0))\<lparr>id_game := ''g3'', game_number := 3\<rparr>]"

text \<open>Three normal games of one match whose counts for side 1 are \<open>2 ^ 53\<close>, 1 and 1.\<close>

definition large_games :: "Game list" where
  "large_games =
     [example_game False (Num (2 ^ 53)) (Num 0) (Num 0) (Num 0),
      (example_game False (Num 1) (Num 0) (Num 0) (Num 0))\<lparr>id_game := ''g2'', game_number := 2\<rparr>,
      (example_game False (Num 1) (Num 0) (Num 0) (Num 0))\<lparr>id_game := ''g3'', game_number := 3\<rparr>]"

text \<open>The match \<open>m1\<close> of pair \<open>X\<close> against pair \<open>Y\<close>, with a given status.\<close>

definition example_match :: "string \<Rightarrow> Match" where
  "example_match st =
     \<lparr>id_match = ''m1'', tournament_id_match = ''t1'', pair1_id = ''X'', pair2_id = ''Y'',
      status = st, is_finished = (st = ''finished'')\<rparr>"

definition example_pair :: "string \<Rightarrow> string \<Rightarrow> string \<Rightarrow> Pair" where
  "example_pair k n1 n2 =
     \<lparr>id_pair = k, tournament_id_pair = ''t1'', player1_id = k @ ''1'', player2_id = k @ ''2'',
      player1_name = n1, player2_name = n2, created_at = ''2024-01-01''\<rparr>"

definition pair_X :: Pair where
  "pair_X = example_pair ''X'' ''Ana'' ''Bea''"

definition pair_Y :: Pair where
  "pair_Y = example_pair ''Y'' ''Carla'' ''Dora''"

text \<open>A second pair whose two players have the names of the players of \<open>pair_X\<close>.\<close>

definition pair_X_namesake :: Pair where
  "pair_X_namesake = example_pair ''Z'' ''Ana'' ''Bea''"

text \<open>A standings entry with given points, sets won and games won, after one match.\<close>

definition example_entry :: "Pair \<Rightarrow> int \<Rightarrow> int \<Rightarrow> int \<Rightarrow> PairWithStats" where
  "example_entry p pts sets games =
     \<lparr>pair = p, stats = \<lparr>gamesWon = games, setsWon = sets, points = Num pts, matchesPlayed = 1\<rparr>\<rparr>"

text \<open>
  A collation for the examples: strings compared code unit by code unit. Every collation
  returns zero on two equal strings, as this one does.
\<close>

fun ordinal_compare :: "string \<Rightarrow> string \<Rightarrow> int" where
  "ordinal_compare [] [] = 0"
| "ordinal_compare [] (y # ys) = - 1"
| "ordinal_compare (x # xs) [] = 1"
| "ordinal_compare (x # xs) (y # ys) =
     (if (of_char x :: nat) < of_char y then - 1
      else if (of_char y :: nat) < of_char x then 1
      else ordinal_compare xs ys)"


section \<open>The operators\<close>

lemma js_gt_Num [simp]: "js_gt (Num x) (Num y) = (y < x)"
  by (simp add: js_gt_def)

lemma js_ge_Num [simp]: "js_ge (Num x) (Num y) = (y \<le> x)"
  by (simp add: js_ge_def)

lemma js_gt_Null: "js_gt Null b = js_gt (Num 0) b" "js_gt a Null = js_gt a (Num 0)"
  by (simp_all add: js_gt_def)

lemma js_ge_Null: "js_ge Null b = js_ge (Num 0) b"
  by (simp add: js_ge_def)

lemma js_add_Null: "js_add a Null = js_add a (Num 0)"
  by (simp add: js_add_def)

lemma js_or_zero [simp]:
  "js_or (Num n) (Num 0) = Num n" "js_or Null (Num 0) = Num 0"
  "js_or Undefined (Num 0) = Num 0" "js_or NaN (Num 0) = Num 0"
  by (simp_all add: js_or_def)

text \<open>Rounding changes no integer of at most \<open>2 ^ 53\<close> in size, and no sign.\<close>

lemma round_double_exact: "\<bar>n\<bar> \<le> 2 ^ 53 \<Longrightarrow> round_double n = Num n"
  by (simp add: round_double_def)

lemma js_add_Num [simp]: "\<bar>x + y\<bar> \<le> 2 ^ 53 \<Longrightarrow> js_add (Num x) (Num y) = Num (x + y)"
  by (simp add: js_add_def round_double_exact)

lemma ulp_exp_lower: "2 ^ 53 \<le> a \<Longrightarrow> 2 ^ 52 \<le> a div 2 ^ ulp_exp a"
proof (induction a rule: ulp_exp.induct)
  case (1 a)
  from "1.prems" have u: "ulp_exp a = Suc (ulp_exp (a div 2))"
    by (subst ulp_exp.simps) simp
  show ?case
  proof (cases "a div 2 < 2 ^ 53")
    case True
    then have "ulp_exp (a div 2) = 0" by (subst ulp_exp.simps) simp
    with "1.prems" show ?thesis unfolding u by simp
  next
    case False
    with "1.prems" "1.IH" have "2 ^ 52 \<le> (a div 2) div 2 ^ ulp_exp (a div 2)" by simp
    then show ?thesis unfolding u by (simp add: div_mult2_eq)
  qed
qed

lemma round_double_large:
  assumes "\<not> \<bar>n\<bar> \<le> 2 ^ 53"
  shows "\<exists>m>0. round_double n = (if n < 0 then NegInfinity else Infinity)
             \<or> round_double n = Num (if n < 0 then - m else m)"
proof -
  define a where "a = nat \<bar>n\<bar>"
  define e where "e = ulp_exp a"
  define q where "q = a div 2 ^ e"
  define r where "r = a mod 2 ^ e"
  define q' where "q' = (if 2 ^ e < 2 * r \<or> (2 * r = 2 ^ e \<and> odd q) then q + 1 else q)"
  define m where "m = int (q' * 2 ^ e)"
  from assms have "2 ^ 53 \<le> a" by (simp add: a_def)
  then have "2 ^ 52 \<le> q" unfolding q_def e_def by (rule ulp_exp_lower)
  then have "0 < q'" by (simp add: q'_def)
  then have pos: "0 < m" by (simp add: m_def)
  have "round_double n =
          (if 2 ^ 1024 \<le> m then (if n < 0 then NegInfinity else Infinity)
           else Num (if n < 0 then - m else m))"
    using assms
    by (simp only: round_double_def Let_def a_def e_def q_def r_def q'_def m_def if_False)
  with pos show ?thesis by (intro exI [of _ m]) auto
qed

lemma sort_value_round_double:
  "(sort_value (round_double n) < 0) = (n < 0)"
  "(0 < sort_value (round_double n)) = (0 < n)"
proof -
  show "(sort_value (round_double n) < 0) = (n < 0)"
  proof (cases "\<bar>n\<bar> \<le> 2 ^ 53")
    case True
    then show ?thesis by (simp add: round_double_exact sort_value_def)
  next
    case False
    from round_double_large [OF this] show ?thesis
      by (auto simp: sort_value_def split: if_splits)
  qed
  show "(0 < sort_value (round_double n)) = (0 < n)"
  proof (cases "\<bar>n\<bar> \<le> 2 ^ 53")
    case True
    then show ?thesis by (simp add: round_double_exact sort_value_def)
  next
    case False
    then have "n \<noteq> 0" by auto
    with round_double_large [OF False] show ?thesis
      by (auto simp: sort_value_def split: if_splits)
  qed
qed

text \<open>A sum of numbers that stays within \<open>2 ^ 53\<close> in size at every step is exact.\<close>

lemma is_number_iff: "is_number v = (\<exists>n. v = Num n)"
  by (cases v) (simp_all add: is_number_def)

lemma count_of_Num [simp]: "count_of (Num n) = n"
  by (simp add: count_of_def)

lemma foldl_js_add_exact:
  assumes "\<forall>v\<in>set vs. is_number (ToNumber v)"
    and "\<bar>p\<bar> + (\<Sum>v\<leftarrow>vs. \<bar>count_of v\<bar>) \<le> 2 ^ 53"
  shows "foldl js_add (Num p) vs = Num (p + (\<Sum>v\<leftarrow>vs. count_of v))"
  using assms
proof (induction vs arbitrary: p)
  case Nil
  then show ?case by simp
next
  case (Cons v vs)
  from Cons.prems(1) obtain c where c: "ToNumber v = Num c"
    by (auto simp: is_number_iff)
  then have cv: "count_of v = c" by (simp add: count_of_def)
  have nn: "0 \<le> (\<Sum>v\<leftarrow>vs. \<bar>count_of v\<bar>)"
    by (rule sum_list_nonneg) auto
  from Cons.prems(2) nn have b: "\<bar>p + c\<bar> \<le> 2 ^ 53" by (simp add: cv)
  then have step: "js_add (Num p) v = Num (p + c)"
    by (simp add: js_add_def c round_double_exact)
  from Cons.prems(2) have "\<bar>p + c\<bar> + (\<Sum>v\<leftarrow>vs. \<bar>count_of v\<bar>) \<le> 2 ^ 53"
    by (simp add: cv)
  with Cons.prems(1) have "foldl js_add (Num (p + c)) vs = Num (p + c + (\<Sum>v\<leftarrow>vs. count_of v))"
    by (intro Cons.IH) simp_all
  then show ?case by (simp add: step cv)
qed


section \<open>One game\<close>

lemma game_step_tie_break:
  "is_tie_break g \<Longrightarrow>
   game_step s g =
     s\<lparr>pair1GamesWon := pair1GamesWon s +
          (if js_gt (tie_break_pair1_points g) (tie_break_pair2_points g) then 1 else 0),
       pair2GamesWon := pair2GamesWon s +
          (if js_gt (tie_break_pair1_points g) (tie_break_pair2_points g) then 0
           else if js_gt (tie_break_pair2_points g) (tie_break_pair1_points g) then 1 else 0),
       pair1TotalPoints := js_add (pair1TotalPoints s) (js_or (tie_break_pair1_points g) (Num 0)),
       pair2TotalPoints := js_add (pair2TotalPoints s) (js_or (tie_break_pair2_points g) (Num 0))\<rparr>"
  by (simp add: game_step_def Let_def)

lemma game_step_normal:
  "\<not> is_tie_break g \<Longrightarrow>
   game_step s g =
     s\<lparr>pair1GamesWon := pair1GamesWon s +
          (if js_gt (pair1_games g) (pair2_games g) then 1 else 0),
       pair2GamesWon := pair2GamesWon s +
          (if js_gt (pair1_games g) (pair2_games g) then 0
           else if js_gt (pair2_games g) (pair1_games g) then 1 else 0),
       pair1SetsWon := pair1SetsWon s + (if js_ge (pair1_games g) (Num 6) then 1 else 0),
       pair2SetsWon := pair2SetsWon s + (if js_ge (pair2_games g) (Num 6) then 1 else 0),
       pair1TotalPoints := js_add (pair1TotalPoints s) (pair1_games g),
       pair2TotalPoints := js_add (pair2TotalPoints s) (pair2_games g)\<rparr>"
  by (simp add: game_step_def Let_def)

lemma game_step_add: "game_step s g = add_ms s (game_delta g)"
  by (cases s) (simp add: game_step_def Let_def add_ms_def game_delta_def)

text \<open>
  C2. A tie-break game whose two point counts are numbers, or unset and then counted as
  zero, adds one game won to the side with strictly more tie-break points and to no side
  when the counts are equal, adds no set to either side, and adds each count to the points
  of its side.
\<close>

theorem tie_break_game_scoring:
  assumes "is_tie_break g"
    and "tie_break_pair1_points g = Num a \<or> (tie_break_pair1_points g = Null \<and> a = 0)"
    and "tie_break_pair2_points g = Num b \<or> (tie_break_pair2_points g = Null \<and> b = 0)"
  shows "pair1GamesWon (game_step s g) = pair1GamesWon s + (if b < a then 1 else 0)
       \<and> pair2GamesWon (game_step s g) = pair2GamesWon s + (if a < b then 1 else 0)
       \<and> pair1SetsWon (game_step s g) = pair1SetsWon s
       \<and> pair2SetsWon (game_step s g) = pair2SetsWon s
       \<and> pair1TotalPoints (game_step s g) = js_add (pair1TotalPoints s) (Num a)
       \<and> pair2TotalPoints (game_step s g) = js_add (pair2TotalPoints s) (Num b)"
  using assms by (auto simp: game_step_tie_break js_gt_Null)

theorem tie_break_game_scoring_witness:
  "game_step zero_match_stats (example_game True (Num 0) (Num 0) (Num 7) (Num 5)) =
     \<lparr>pair1GamesWon = 1, pair2GamesWon = 0, pair1SetsWon = 0, pair2SetsWon = 0,
      pair1TotalPoints = Num 7, pair2TotalPoints = Num 5\<rparr>"
  using tie_break_game_scoring
    [of "example_game True (Num 0) (Num 0) (Num 7) (Num 5)" 7 5 zero_match_stats]
  by (simp add: example_game_def zero_match_stats_def)

text \<open>
  C3. A normal game adds one set to side 1 exactly when side 1 has at least six games
  and one set to side 2 exactly when side 2 has at least six games, whichever side has
  more games and so wins the game.
\<close>

theorem normal_game_set_credit:
  assumes "\<not> is_tie_break g"
    and "pair1_games g = Num a"
    and "pair2_games g = Num b"
  shows "pair1SetsWon (game_step s g) = pair1SetsWon s + (if 6 \<le> a then 1 else 0)
       \<and> pair2SetsWon (game_step s g) = pair2SetsWon s + (if 6 \<le> b then 1 else 0)
       \<and> pair1GamesWon (game_step s g) = pair1GamesWon s + (if b < a then 1 else 0)
       \<and> pair2GamesWon (game_step s g) = pair2GamesWon s + (if a < b then 1 else 0)"
  using assms by (auto simp: game_step_normal)

theorem normal_game_set_credit_witness:
  "pair1SetsWon (game_step zero_match_stats (example_game False (Num 6) (Num 7) (Num 0) (Num 0))) = 1
 \<and> pair2SetsWon (game_step zero_match_stats (example_game False (Num 6) (Num 7) (Num 0) (Num 0))) = 1
 \<and> pair1GamesWon (game_step zero_match_stats (example_game False (Num 6) (Num 7) (Num 0) (Num 0))) = 0
 \<and> pair2GamesWon (game_step zero_match_stats (example_game False (Num 6) (Num 7) (Num 0) (Num 0))) = 1"
  using normal_game_set_credit
    [of "example_game False (Num 6) (Num 7) (Num 0) (Num 0)" 6 7 zero_match_stats]
  by (simp add: example_game_def zero_match_stats_def)

text \<open>
  C10, as stated, fails: a normal game whose \<open>pair1_games\<close> is missing adds \<open>NaN\<close> to
  the points of side 1, and the same game with the field at zero adds zero.
\<close>

theorem missing_field_counterexample:
  "game_step zero_match_stats (example_game False Undefined (Num 3) (Num 0) (Num 0))
     \<noteq> game_step zero_match_stats (example_game False (Num 0) (Num 3) (Num 0) (Num 0))"
  by (simp add: example_game_def zero_match_stats_def game_step_def js_gt_def js_ge_def js_add_def)

text \<open>
  C10, amended. A score field that is \<open>null\<close> is read as zero: the counters after the
  game are those of the same game with the field at zero, for each of the four fields.
  A tie-break point count that is \<open>undefined\<close> adds zero to the points of its side.
\<close>

theorem null_field_as_zero:
  "game_step s (g\<lparr>pair1_games := Null\<rparr>) = game_step s (g\<lparr>pair1_games := Num 0\<rparr>)
 \<and> game_step s (g\<lparr>pair2_games := Null\<rparr>) = game_step s (g\<lparr>pair2_games := Num 0\<rparr>)
 \<and> game_step s (g\<lparr>tie_break_pair1_points := Null\<rparr>)
      = game_step s (g\<lparr>tie_break_pair1_points := Num 0\<rparr>)
 \<and> game_step s (g\<lparr>tie_break_pair2_points := Null\<rparr>)
      = game_step s (g\<lparr>tie_break_pair2_points := Num 0\<rparr>)
 \<and> pair1TotalPoints (game_step s (g\<lparr>is_tie_break := True, tie_break_pair1_points := Undefined\<rparr>))
      = pair1TotalPoints (game_step s (g\<lparr>is_tie_break := True, tie_break_pair1_points := Num 0\<rparr>))
 \<and> pair2TotalPoints (game_step s (g\<lparr>is_tie_break := True, tie_break_pair2_points := Undefined\<rparr>))
      = pair2TotalPoints (game_step s (g\<lparr>is_tie_break := True, tie_break_pair2_points := Num 0\<rparr>))"
  by (simp add: game_step_def js_gt_Null js_ge_Null js_add_Null)


section \<open>The winner shown on the match card\<close>

lemma winner_step_normal:
  "\<not> is_tie_break g \<Longrightarrow>
   fst w = pair1GamesWon s \<Longrightarrow> snd w = pair2GamesWon s \<Longrightarrow>
   fst (winner_step w g) = pair1GamesWon (game_step s g)
 \<and> snd (winner_step w g) = pair2GamesWon (game_step s g)"
  by (simp add: winner_step_def game_step_normal)

lemma foldl_winner_step:
  "\<forall>g\<in>set games. \<not> is_tie_break g \<Longrightarrow>
   fst w = pair1GamesWon s \<Longrightarrow> snd w = pair2GamesWon s \<Longrightarrow>
   fst (foldl winner_step w games) = pair1GamesWon (foldl game_step s games)
 \<and> snd (foldl winner_step w games) = pair2GamesWon (foldl game_step s games)"
proof (induction games arbitrary: w s)
  case Nil
  then show ?case by simp
next
  case (Cons g games)
  from Cons.prems have n: "\<not> is_tie_break g" and rest: "\<forall>g\<in>set games. \<not> is_tie_break g"
    by simp_all
  from winner_step_normal [OF n Cons.prems(2) Cons.prems(3)]
  show ?case using Cons.IH [OF rest, of "winner_step w g" "game_step s g"] by simp
qed

text \<open>
  C4, as stated, fails twice. With no game the card shows no outcome, not a tie. And a
  tie-break game is judged by its two game counts, not by its tie-break points: the
  game below is a game won by side 1 in \<open>calculateMatchStats\<close> and a tie on the card.
\<close>

theorem match_winner_counterexample:
  "getMatchWinner [] = None
 \<and> getMatchWinner [example_game True (Num 0) (Num 0) (Num 7) (Num 5)]
     = Some \<lparr>winner = ''tie'', pair1Wins = 0, pair2Wins = 0\<rparr>
 \<and> pair1GamesWon (calculateMatchStats (example_match ''finished'')
       [example_game True (Num 0) (Num 0) (Num 7) (Num 5)]) = 1
 \<and> pair2GamesWon (calculateMatchStats (example_match ''finished'')
       [example_game True (Num 0) (Num 0) (Num 7) (Num 5)]) = 0"
  by (simp add: getMatchWinner_def winner_step_def calculateMatchStats_def example_game_def
      game_step_def zero_match_stats_def js_or_def)

text \<open>
  C4, amended. For a match with at least one game and no tie-break game, the outcome
  shown compares the two games-won counts of \<open>calculateMatchStats\<close>: the side with
  strictly more games won is the winner, equal counts are a tie, and neither sets nor
  points enter. With no game there is no outcome.
\<close>

theorem match_winner_by_games_won:
  assumes "games \<noteq> []" and "\<forall>g\<in>set games. \<not> is_tie_break g"
  shows "getMatchWinner games =
           Some \<lparr>winner =
                   (if pair2GamesWon (calculateMatchStats m games)
                         < pair1GamesWon (calculateMatchStats m games) then ''pair1''
                    else if pair1GamesWon (calculateMatchStats m games)
                         < pair2GamesWon (calculateMatchStats m games) then ''pair2''
                    else ''tie''),
                 pair1Wins = pair1GamesWon (calculateMatchStats m games),
                 pair2Wins = pair2GamesWon (calculateMatchStats m games)\<rparr>
       \<and> getMatchWinner [] = None"
proof -
  have "fst (foldl winner_step (0, 0) games) = pair1GamesWon (calculateMatchStats m games)
      \<and> snd (foldl winner_step (0, 0) games) = pair2GamesWon (calculateMatchStats m games)"
    unfolding calculateMatchStats_def
    by (rule foldl_winner_step [OF assms(2)]) (simp_all add: zero_match_stats_def)
  with assms(1) show ?thesis
    by (simp add: getMatchWinner_def Let_def)
qed

theorem match_winner_by_games_won_witness:
  "example_games \<noteq> []
 \<and> list_all (\<lambda>g. \<not> is_tie_break g) example_games
 \<and> getMatchWinner example_games = Some \<lparr>winner = ''pair1'', pair1Wins = 2, pair2Wins = 1\<rparr>"
proof -
  have h1: "example_games \<noteq> []"
    by (simp add: example_games_def)
  have h2: "\<forall>g\<in>set example_games. \<not> is_tie_break g"
    by (simp add: example_games_def example_game_def)
  have c: "calculateMatchStats (example_match ''finished'') example_games =
             \<lparr>pair1GamesWon = 2, pair2GamesWon = 1, pair1SetsWon = 2, pair2SetsWon = 2,
              pair1TotalPoints = Num 17, pair2TotalPoints = Num 14\<rparr>"
    by (simp add: calculateMatchStats_def example_games_def example_game_def game_step_def
        zero_match_stats_def)
  from match_winner_by_games_won [OF h1 h2, of "example_match ''finished''"] h1 h2
  show ?thesis
    by (simp add: c list_all_iff)
qed


section \<open>The standings\<close>

lemma upd_apply: "upd k f m k' = (if k' = k then map_option f (m k') else m k')"
  by (simp add: upd_def split: option.split)

lemma accumulate_apply:
  "accumulate match ms S k =
     map_option (\<lambda>s. let s1 = (if k = pair1_id match then side1 ms s else s)
                     in if k = pair2_id match then side2 ms s1 else s1) (S k)"
  by (cases "k = pair1_id match"; cases "k = pair2_id match"; cases "S k";
      clarsimp simp: accumulate_def Let_def upd_apply side1_def side2_def)

lemma match_step_eq:
  "match_step allGames S match =
     (if applies (dom S) allGames match
      then (\<lambda>k. map_option (effect allGames match k) (S k)) else S)"
  by (rule ext)
     (auto simp: match_step_def applies_def counted_def matchGames_of_def Let_def
           accumulate_apply effect_def split: option.splits)

lemma dom_match_step [simp]: "dom (match_step allGames S match) = dom S"
  by (auto simp: match_step_eq dom_def)

lemma foldl_init_stats:
  "foldl (\<lambda>m p. m(id_pair p \<mapsto> z)) M pairs k =
     (if k \<in> id_pair ` set pairs then Some z else M k)"
  by (induction pairs arbitrary: M) auto

lemma init_stats_apply:
  "init_stats pairs k = (if k \<in> id_pair ` set pairs then Some zero_stats else None)"
  by (simp add: init_stats_def foldl_init_stats)

lemma dom_init_stats [simp]: "dom (init_stats pairs) = id_pair ` set pairs"
  by (auto simp: dom_def init_stats_apply)

lemma dom_foldl_match_step [simp]:
  "dom (foldl (match_step allGames) S matches) = dom S"
  by (induction matches arbitrary: S) simp_all

lemma dom_pairStats_of [simp]: "dom (pairStats_of pairs matches allGames) = id_pair ` set pairs"
  by (simp add: pairStats_of_def)

lemma pairStats_of_Some:
  assumes "k \<in> id_pair ` set pairs"
  shows "\<exists>s. pairStats_of pairs matches allGames k = Some s"
proof -
  from assms have "k \<in> dom (pairStats_of pairs matches allGames)" by simp
  then show ?thesis by (simp only: dom_def mem_Collect_eq not_None_eq)
qed

lemma pairsWithStats_eq:
  "pairsWithStats pairs matches allGames = map (entry (pairStats_of pairs matches allGames)) pairs"
  by (auto simp: pairsWithStats_def Let_def entry_def pairStats_of_def init_stats_apply)

text \<open>
  The loop over the matches in closed form: the object of every key holds what
  \<open>accumulated\<close> says.
\<close>

lemma match_step_accumulated:
  "match_step allGames S m k = map_option (accumulated (dom S) allGames [m] k) (S k)"
proof (cases "S k")
  case None
  then show ?thesis by (simp add: match_step_eq)
next
  case (Some s)
  show ?thesis
  proof (cases "applies (dom S) allGames m")
    case True
    then show ?thesis
      by (cases s)
         (simp add: match_step_eq Some accumulated_def contrib_def point_contribs_def effect_def
            match_stats_of_def side1_def side2_def Let_def)
  next
    case False
    then show ?thesis
      by (cases s) (simp add: match_step_eq Some accumulated_def contrib_def point_contribs_def)
  qed
qed

lemma accumulated_Cons:
  "accumulated D allGames (m # ms) k s
     = accumulated D allGames ms k (accumulated D allGames [m] k s)"
  by (simp add: accumulated_def)

lemma foldl_match_step_accumulated:
  "foldl (match_step allGames) S ms k = map_option (accumulated (dom S) allGames ms k) (S k)"
proof (induction ms arbitrary: S)
  case Nil
  show ?case by (cases "S k") (simp_all add: accumulated_def)
next
  case (Cons m ms)
  have "foldl (match_step allGames) S (m # ms) k
          = map_option (accumulated (dom S) allGames ms k) (match_step allGames S m k)"
    using Cons.IH [of "match_step allGames S m"] by simp
  also have "\<dots> = map_option (accumulated (dom S) allGames (m # ms) k) (S k)"
    by (cases "S k") (simp_all add: match_step_accumulated accumulated_Cons [of _ _ m ms])
  finally show ?case .
qed

lemma pairStats_of_accumulated:
  "pairStats_of pairs ms allGames k =
     (if k \<in> id_pair ` set pairs
      then Some (accumulated (id_pair ` set pairs) allGames ms k zero_stats) else None)"
  by (simp add: pairStats_of_def foldl_match_step_accumulated init_stats_apply)

lemma accumulated_insert:
  "accumulated D allGames (A @ m # B) k s =
     (accumulated D allGames (A @ B) k s)
       \<lparr>gamesWon := gamesWon (accumulated D allGames (A @ B) k s)
                       + contrib pair1GamesWon pair2GamesWon D allGames m k,
        setsWon := setsWon (accumulated D allGames (A @ B) k s)
                       + contrib pair1SetsWon pair2SetsWon D allGames m k,
        matchesPlayed := matchesPlayed (accumulated D allGames (A @ B) k s)
                       + contrib (\<lambda>_. 1) (\<lambda>_. 1) D allGames m k,
        points := foldl js_add (points s)
                    (concat (map (\<lambda>m. point_contribs D allGames m k) (A @ m # B)))\<rparr>"
  by (simp add: accumulated_def)

lemma accumulated_skip:
  assumes "\<not> applies D allGames m"
  shows "accumulated D allGames (A @ m # B) k s = accumulated D allGames (A @ B) k s"
  using assms by (simp add: accumulated_def contrib_def point_contribs_def)

lemma pairStats_of_skip:
  assumes "\<not> applies (id_pair ` set pairs) allGames m"
  shows "pairStats_of pairs (A @ m # B) allGames = pairStats_of pairs (A @ B) allGames"
  by (rule ext) (simp add: pairStats_of_accumulated accumulated_skip [OF assms])

lemma matchesPlayed_insert:
  assumes "p \<in> set pairs"
  shows "matchesPlayed (stats (entry (pairStats_of pairs (A @ m # B) allGames) p))
       = matchesPlayed (stats (entry (pairStats_of pairs (A @ B) allGames) p))
         + contrib (\<lambda>_. 1) (\<lambda>_. 1) (id_pair ` set pairs) allGames m (id_pair p)"
  using assms by (simp add: entry_def pairStats_of_accumulated accumulated_def)

lemma matchesPlayed_the_insert:
  assumes "k \<in> id_pair ` set pairs"
  shows "matchesPlayed (the (pairStats_of pairs (A @ m # B) allGames k))
       = matchesPlayed (the (pairStats_of pairs (A @ B) allGames k))
         + contrib (\<lambda>_. 1) (\<lambda>_. 1) (id_pair ` set pairs) allGames m k"
  using assms by (simp add: pairStats_of_accumulated accumulated_def)

text \<open>
  C5, amended. A match contributes to the standings exactly when it is finished, has at
  least one game and names on both sides the id of a pair of the tournament: removing
  such a match from the match list changes the standings, and removing any other match,
  in particular one that is not finished or one that is finished and has no game, leaves
  every entry with the same games won, sets won, points and matches played.
\<close>

theorem contributing_match_iff:
  "(pairsWithStats pairs (A @ m # B) allGames \<noteq> pairsWithStats pairs (A @ B) allGames)
     = (status m = ''finished''
        \<and> filter (\<lambda>game. match_id game = id_match m) allGames \<noteq> []
        \<and> pair1_id m \<in> id_pair ` set pairs \<and> pair2_id m \<in> id_pair ` set pairs)"
proof (cases "applies (id_pair ` set pairs) allGames m")
  case False
  then have "pairsWithStats pairs (A @ m # B) allGames = pairsWithStats pairs (A @ B) allGames"
    by (simp add: pairsWithStats_eq pairStats_of_skip)
  with False show ?thesis
    by (simp add: applies_def counted_def matchGames_of_def)
next
  case True
  from True obtain p where p: "p \<in> set pairs" "id_pair p = pair1_id m"
    by (auto simp: applies_def)
  from True p(2)
  have "0 < contrib (\<lambda>_. 1) (\<lambda>_. 1) (id_pair ` set pairs) allGames m (id_pair p)"
    by (simp add: contrib_def)
  with matchesPlayed_insert [OF p(1), of A m B allGames]
  have "entry (pairStats_of pairs (A @ m # B) allGames) p
          \<noteq> entry (pairStats_of pairs (A @ B) allGames) p"
    by auto
  with p(1) have "pairsWithStats pairs (A @ m # B) allGames
                    \<noteq> pairsWithStats pairs (A @ B) allGames"
    by (auto simp: pairsWithStats_eq)
  with True show ?thesis
    by (simp add: applies_def counted_def matchGames_of_def)
qed

text \<open>
  C9. A match that names, on either side, a pair id that no pair of the tournament has is
  skipped whole: the standings, before and after sorting, are those computed without the
  match, also for the pair that is present. The computation has no failing branch.
\<close>

theorem missing_pair_match_skipped:
  assumes "pair1_id m \<notin> id_pair ` set pairs \<or> pair2_id m \<notin> id_pair ` set pairs"
  shows "pairsWithStats pairs (A @ m # B) allGames = pairsWithStats pairs (A @ B) allGames
       \<and> sortedPairs lc pairs (A @ m # B) allGames = sortedPairs lc pairs (A @ B) allGames"
proof -
  from assms have "\<not> applies (id_pair ` set pairs) allGames m"
    by (auto simp: applies_def)
  then show ?thesis
    by (simp add: sortedPairs_def pairsWithStats_eq pairStats_of_skip)
qed


lemma foldl_match_step_unfinished:
  "\<forall>m\<in>set matches. status m \<noteq> ''finished'' \<Longrightarrow> foldl (match_step allGames) S matches = S"
  by (induction matches arbitrary: S) (simp_all add: match_step_def)

lemma entry_init_stats:
  "p \<in> set pairs \<Longrightarrow> entry (init_stats pairs) p = \<lparr>pair = p, stats = zero_stats\<rparr>"
  by (simp add: entry_def init_stats_apply)

lemma insert_sorted_map:
  "insert_sorted cmp (f x) (map f ys) = map f (insert_sorted (\<lambda>a b. cmp (f a) (f b)) x ys)"
  by (induction ys) (simp_all add: SortCompare_def)

lemma js_sort_map:
  "js_sort cmp (map f xs) = map f (js_sort (\<lambda>a b. cmp (f a) (f b)) xs)"
  by (induction xs) (simp_all add: insert_sorted_map)

lemma compare_pairs_zero:
  "compare_pairs lc \<lparr>pair = p, stats = zero_stats\<rparr> \<lparr>pair = q, stats = zero_stats\<rparr>
     = Num (lc (display_name p) (display_name q))"
  by (simp add: compare_pairs_def js_strict_neq_def zero_stats_def)

text \<open>
  C6. When no match is finished, the standings hold one entry for every pair, in the order
  of the pair list, each with games won, sets won, points and matches played at zero; and
  the sorted standings are these entries in the order in which the sort by display name
  alone puts the pairs.
\<close>

theorem no_finished_match_all_zero:
  assumes "\<forall>m\<in>set matches. status m \<noteq> ''finished''"
  shows "pairsWithStats pairs matches allGames = map (\<lambda>p. \<lparr>pair = p, stats = zero_stats\<rparr>) pairs
       \<and> sortedPairs lc pairs matches allGames =
           map (\<lambda>p. \<lparr>pair = p, stats = zero_stats\<rparr>)
             (js_sort (\<lambda>p q. Num (lc (display_name p) (display_name q))) pairs)"
proof -
  have "pairStats_of pairs matches allGames = init_stats pairs"
    using assms by (simp add: pairStats_of_def foldl_match_step_unfinished)
  then have a: "pairsWithStats pairs matches allGames
                  = map (\<lambda>p. \<lparr>pair = p, stats = zero_stats\<rparr>) pairs"
    by (simp add: pairsWithStats_eq entry_init_stats)
  then show ?thesis
    by (simp add: sortedPairs_def js_sort_map compare_pairs_zero)
qed

text \<open>
  C8, amended. For a match with at least one game, between two different pairs of the
  tournament, the standings computed with the match finished and with the match in
  progress differ in matches played by exactly one for every entry of either pair and by
  nothing for the other entries; the sum over the two pairs differs by exactly two.
\<close>

theorem finish_adds_one_match_each:
  assumes "filter (\<lambda>game. match_id game = id_match m) allGames \<noteq> []"
    and "pair1_id m \<noteq> pair2_id m"
    and "pair1_id m \<in> id_pair ` set pairs"
    and "pair2_id m \<in> id_pair ` set pairs"
  shows "map (\<lambda>e. matchesPlayed (stats e))
           (pairsWithStats pairs (A @ m\<lparr>status := ''finished''\<rparr> # B) allGames)
       = map (\<lambda>e. matchesPlayed (stats e)
                   + (if id_pair (pair e) = pair1_id m \<or> id_pair (pair e) = pair2_id m
                      then 1 else 0))
           (pairsWithStats pairs (A @ m\<lparr>status := ''in_progress''\<rparr> # B) allGames)
       \<and> matchesPlayed (the (pairStats_of pairs (A @ m\<lparr>status := ''finished''\<rparr> # B) allGames
                                 (pair1_id m)))
         + matchesPlayed (the (pairStats_of pairs (A @ m\<lparr>status := ''finished''\<rparr> # B) allGames
                                 (pair2_id m)))
       = matchesPlayed (the (pairStats_of pairs (A @ m\<lparr>status := ''in_progress''\<rparr> # B) allGames
                               (pair1_id m)))
         + matchesPlayed (the (pairStats_of pairs (A @ m\<lparr>status := ''in_progress''\<rparr> # B) allGames
                                 (pair2_id m)))
         + 2"
proof -
  let ?D = "id_pair ` set pairs"
  let ?X = "pairStats_of pairs (A @ B) allGames"
  let ?fin = "m\<lparr>status := ''finished''\<rparr>"
  let ?open = "m\<lparr>status := ''in_progress''\<rparr>"
  have o: "pairStats_of pairs (A @ ?open # B) allGames = ?X"
    by (rule pairStats_of_skip) (simp add: applies_def counted_def)
  have ap: "applies ?D allGames ?fin"
    using assms by (simp add: applies_def counted_def matchGames_of_def)
  have c: "contrib (\<lambda>_. 1) (\<lambda>_. 1) ?D allGames ?fin k
             = (if k = pair1_id m \<or> k = pair2_id m then 1 else 0)" for k
    using ap assms(2) by (auto simp: contrib_def)
  have "map (\<lambda>e. matchesPlayed (stats e))
          (map (entry (pairStats_of pairs (A @ ?fin # B) allGames)) pairs)
      = map (\<lambda>e. matchesPlayed (stats e)
                  + (if id_pair (pair e) = pair1_id m \<or> id_pair (pair e) = pair2_id m
                     then 1 else 0))
          (map (entry ?X) pairs)"
    by (simp add: matchesPlayed_insert c) (simp add: entry_def)
  moreover have "matchesPlayed (the (pairStats_of pairs (A @ ?fin # B) allGames (pair1_id m)))
      + matchesPlayed (the (pairStats_of pairs (A @ ?fin # B) allGames (pair2_id m)))
      = matchesPlayed (the (?X (pair1_id m))) + matchesPlayed (the (?X (pair2_id m))) + 2"
    using assms(2)
    by (simp add: matchesPlayed_the_insert [OF assms(3)] matchesPlayed_the_insert [OF assms(4)] c)
  ultimately show ?thesis
    by (simp only: pairsWithStats_eq o)
qed

theorem contributing_match_iff_witness:
  "pairsWithStats [pair_X, pair_Y] ([] @ example_match ''in_progress'' # []) example_games
     = pairsWithStats [pair_X, pair_Y] ([] @ []) example_games
 \<and> pairsWithStats [pair_X, pair_Y] ([] @ example_match ''finished'' # []) []
     = pairsWithStats [pair_X, pair_Y] ([] @ []) []
 \<and> pairsWithStats [pair_X, pair_Y] ([] @ example_match ''finished'' # []) example_games
     \<noteq> pairsWithStats [pair_X, pair_Y] ([] @ []) example_games"
  using contributing_match_iff
      [of "[pair_X, pair_Y]" "[]" "example_match ''in_progress''" "[]" example_games]
    contributing_match_iff
      [of "[pair_X, pair_Y]" "[]" "example_match ''finished''" "[]" "[]"]
    contributing_match_iff
      [of "[pair_X, pair_Y]" "[]" "example_match ''finished''" "[]" example_games]
  by (simp add: example_match_def example_games_def example_game_def pair_X_def pair_Y_def
      example_pair_def)

text \<open>
  C5, as stated, fails: a finished match with three games, one of whose pairs is not a
  pair of the tournament, contributes nothing.
\<close>

theorem finished_match_not_counted_counterexample:
  "status (example_match ''finished'') = ''finished''
 \<and> filter (\<lambda>game. match_id game = id_match (example_match ''finished'')) example_games \<noteq> []
 \<and> pairsWithStats [pair_X] [example_match ''finished''] example_games
     = pairsWithStats [pair_X] [] example_games"
  by (simp add: pairsWithStats_def pairStats_of_def init_stats_def match_step_def
      example_match_def example_games_def example_game_def pair_X_def example_pair_def)

theorem missing_pair_match_skipped_witness:
  "pairsWithStats [pair_X] ([] @ example_match ''finished'' # []) example_games
     = [\<lparr>pair = pair_X, stats = zero_stats\<rparr>]
 \<and> pairsWithStats [pair_X] ([] @ []) example_games = [\<lparr>pair = pair_X, stats = zero_stats\<rparr>]"
  using missing_pair_match_skipped
      [of "example_match ''finished''" "[pair_X]" "[]" "[]" example_games ordinal_compare]
  by (simp add: example_match_def pair_X_def example_pair_def pairsWithStats_def)

theorem no_finished_match_all_zero_witness:
  "list_all (\<lambda>m. status m \<noteq> ''finished'') [example_match ''in_progress'']
 \<and> sortedPairs ordinal_compare [pair_Y, pair_X] [example_match ''in_progress''] example_games
     = [\<lparr>pair = pair_X, stats = zero_stats\<rparr>, \<lparr>pair = pair_Y, stats = zero_stats\<rparr>]"
  using no_finished_match_all_zero
      [of "[example_match ''in_progress'']" "[pair_Y, pair_X]" example_games ordinal_compare]
  by (simp add: example_match_def pair_X_def pair_Y_def example_pair_def display_name_def
      SortCompare_def)

text \<open>
  C8, as stated, fails: a match with no game adds nothing when it is finished.
\<close>

theorem finish_without_games_counterexample:
  "map (\<lambda>e. matchesPlayed (stats e))
     (pairsWithStats [pair_X, pair_Y] [example_match ''finished''] []) = [0, 0]
 \<and> map (\<lambda>e. matchesPlayed (stats e))
     (pairsWithStats [pair_X, pair_Y] [example_match ''in_progress''] []) = [0, 0]"
  by (simp add: pairsWithStats_def pairStats_of_def init_stats_def match_step_def
      zero_stats_def example_match_def pair_X_def pair_Y_def example_pair_def)

theorem finish_adds_one_match_each_witness:
  "map (\<lambda>e. matchesPlayed (stats e))
     (pairsWithStats [pair_X, pair_Y]
        ([] @ (example_match ''in_progress'')\<lparr>status := ''finished''\<rparr> # []) example_games)
     = [1, 1]
 \<and> map (\<lambda>e. matchesPlayed (stats e))
     (pairsWithStats [pair_X, pair_Y]
        ([] @ (example_match ''in_progress'')\<lparr>status := ''in_progress''\<rparr> # []) example_games)
     = [0, 0]"
proof -
  have o: "pairsWithStats [pair_X, pair_Y]
             ([] @ (example_match ''in_progress'')\<lparr>status := ''in_progress''\<rparr> # [])
             example_games
           = [\<lparr>pair = pair_X, stats = zero_stats\<rparr>, \<lparr>pair = pair_Y, stats = zero_stats\<rparr>]"
    by (simp add: pairsWithStats_def pairStats_of_def init_stats_def match_step_def
        example_match_def pair_X_def pair_Y_def example_pair_def)
  have h1: "filter (\<lambda>game. match_id game = id_match (example_match ''in_progress''))
              example_games \<noteq> []"
    by (simp add: example_match_def example_games_def example_game_def)
  have h2: "pair1_id (example_match ''in_progress'') \<noteq> pair2_id (example_match ''in_progress'')"
    by (simp add: example_match_def)
  have h3: "pair1_id (example_match ''in_progress'') \<in> id_pair ` set [pair_X, pair_Y]"
    by (simp add: example_match_def pair_X_def example_pair_def)
  have h4: "pair2_id (example_match ''in_progress'') \<in> id_pair ` set [pair_X, pair_Y]"
    by (simp add: example_match_def pair_Y_def example_pair_def)
  note t = finish_adds_one_match_each [OF h1 h2 h3 h4, of "[]" "[]", THEN conjunct1, unfolded o]
  show ?thesis
    unfolding o t
    by (simp add: zero_stats_def example_match_def pair_X_def pair_Y_def example_pair_def)
qed


section \<open>Point totals that are exact\<close>

text \<open>
  The point totals are sums of doubles. When every game adds finite numbers and the sizes
  of these numbers, summed over the games of every match, stay within \<open>2 ^ 53\<close>, no sum
  is rounded: every total is the integer sum of what was added, in whatever order. The
  statements below on the order of the games and of the matches suppose this.
\<close>

lemma sum_list_mset_cong:
  assumes "mset xs = mset ys"
  shows "(\<Sum>x\<leftarrow>xs. f x) = (\<Sum>x\<leftarrow>ys. (f x :: int))"
proof -
  have "sum_mset (mset (map f xs)) = sum_mset (mset (map f ys))"
    using assms by simp
  then show ?thesis by (simp only: sum_mset_sum_list)
qed

lemma member_le_sum_list_int:
  assumes "\<forall>x\<in>set xs. 0 \<le> f x" and "m \<in> set xs"
  shows "f m \<le> (\<Sum>x\<leftarrow>xs. (f x :: int))"
  using assms
proof (induction xs)
  case Nil
  then show ?case by simp
next
  case (Cons x xs)
  have nn: "0 \<le> (\<Sum>x\<leftarrow>xs. f x)"
    using Cons.prems(1) by (intro sum_list_nonneg) auto
  show ?case
  proof (cases "m = x")
    case True
    with nn show ?thesis by simp
  next
    case False
    with Cons.prems have "f m \<le> (\<Sum>x\<leftarrow>xs. f x)" by (intro Cons.IH) auto
    moreover from Cons.prems(1) have "0 \<le> f x" by simp
    ultimately show ?thesis by simp
  qed
qed

lemma foldl_game_step_closed:
  "foldl game_step s games =
     \<lparr>pair1GamesWon = pair1GamesWon s + (\<Sum>g\<leftarrow>games. pair1GamesWon (game_delta g)),
      pair2GamesWon = pair2GamesWon s + (\<Sum>g\<leftarrow>games. pair2GamesWon (game_delta g)),
      pair1SetsWon = pair1SetsWon s + (\<Sum>g\<leftarrow>games. pair1SetsWon (game_delta g)),
      pair2SetsWon = pair2SetsWon s + (\<Sum>g\<leftarrow>games. pair2SetsWon (game_delta g)),
      pair1TotalPoints =
        foldl js_add (pair1TotalPoints s) (map (\<lambda>g. pair1TotalPoints (game_delta g)) games),
      pair2TotalPoints =
        foldl js_add (pair2TotalPoints s) (map (\<lambda>g. pair2TotalPoints (game_delta g)) games)\<rparr>"
proof (induction games arbitrary: s)
  case Nil
  show ?case by (cases s) simp
next
  case (Cons g games)
  show ?case
    by (simp add: Cons.IH [of "game_step s g"]) (simp add: game_step_add add_ms_def)
qed

lemma weight_nonneg [simp]: "0 \<le> weight g"
  by (simp add: weight_def)

lemma sum_weight_nonneg [simp]: "0 \<le> (\<Sum>g\<leftarrow>games. weight g)"
  by (rule sum_list_nonneg) auto

lemma calculateMatchStats_exact:
  assumes "\<forall>g\<in>set games. well_scored g" and "(\<Sum>g\<leftarrow>games. weight g) \<le> 2 ^ 53"
  shows "calculateMatchStats m games = sum_ms games"
proof -
  have b1: "(\<Sum>g\<leftarrow>games. \<bar>count_of (pair1TotalPoints (game_delta g))\<bar>) \<le> (\<Sum>g\<leftarrow>games. weight g)"
    by (rule sum_list_mono) (simp add: weight_def)
  have b2: "(\<Sum>g\<leftarrow>games. \<bar>count_of (pair2TotalPoints (game_delta g))\<bar>) \<le> (\<Sum>g\<leftarrow>games. weight g)"
    by (rule sum_list_mono) (simp add: weight_def)
  have p1: "foldl js_add (Num 0) (map (\<lambda>g. pair1TotalPoints (game_delta g)) games)
              = Num (0 + (\<Sum>v\<leftarrow>map (\<lambda>g. pair1TotalPoints (game_delta g)) games. count_of v))"
    using assms b1 by (intro foldl_js_add_exact) (auto simp: well_scored_def comp_def)
  have p2: "foldl js_add (Num 0) (map (\<lambda>g. pair2TotalPoints (game_delta g)) games)
              = Num (0 + (\<Sum>v\<leftarrow>map (\<lambda>g. pair2TotalPoints (game_delta g)) games. count_of v))"
    using assms b2 by (intro foldl_js_add_exact) (auto simp: well_scored_def comp_def)
  show ?thesis
    unfolding calculateMatchStats_def foldl_game_step_closed
    by (simp add: zero_match_stats_def p1 p2 sum_ms_def comp_def)
qed

lemma sum_ms_perm:
  assumes "mset games = mset games'"
  shows "sum_ms games = sum_ms games'"
  unfolding sum_ms_def
  by (simp only: sum_list_mset_cong [OF assms])

lemma sum_ms_points:
  "pair1TotalPoints (sum_ms games) = Num (\<Sum>g\<leftarrow>games. count_of (pair1TotalPoints (game_delta g)))"
  "pair2TotalPoints (sum_ms games) = Num (\<Sum>g\<leftarrow>games. count_of (pair2TotalPoints (game_delta g)))"
  by (simp_all add: sum_ms_def)

lemma sum_ms_weight:
  "\<bar>count_of (pair1TotalPoints (sum_ms games))\<bar> + \<bar>count_of (pair2TotalPoints (sum_ms games))\<bar>
     \<le> (\<Sum>g\<leftarrow>games. weight g)"
proof -
  have "\<bar>\<Sum>g\<leftarrow>games. count_of (pair1TotalPoints (game_delta g))\<bar>
          \<le> (\<Sum>g\<leftarrow>games. \<bar>count_of (pair1TotalPoints (game_delta g))\<bar>)"
    using sum_list_abs [of "map (\<lambda>g. count_of (pair1TotalPoints (game_delta g))) games"]
    by (simp add: comp_def)
  moreover have "\<bar>\<Sum>g\<leftarrow>games. count_of (pair2TotalPoints (game_delta g))\<bar>
          \<le> (\<Sum>g\<leftarrow>games. \<bar>count_of (pair2TotalPoints (game_delta g))\<bar>)"
    using sum_list_abs [of "map (\<lambda>g. count_of (pair2TotalPoints (game_delta g))) games"]
    by (simp add: comp_def)
  moreover have "(\<Sum>g\<leftarrow>games. weight g)
          = (\<Sum>g\<leftarrow>games. \<bar>count_of (pair1TotalPoints (game_delta g))\<bar>)
            + (\<Sum>g\<leftarrow>games. \<bar>count_of (pair2TotalPoints (game_delta g))\<bar>)"
    by (simp add: weight_def sum_list_addf)
  ultimately show ?thesis by (simp add: sum_ms_points)
qed

lemma matchGames_of_perm:
  assumes "mset allGames' = mset allGames"
  shows "mset (matchGames_of allGames' m) = mset (matchGames_of allGames m)"
  using assms by (simp add: matchGames_of_def)

lemma match_weight_le:
  assumes "m \<in> set ms"
  shows "(\<Sum>g\<leftarrow>matchGames_of allGames m. weight g) \<le> total_weight ms allGames"
  unfolding total_weight_def
  by (rule member_le_sum_list_int [OF _ assms]) simp

lemma match_stats_of_exact:
  assumes "\<forall>g\<in>set allGames. well_scored g"
    and "total_weight ms allGames \<le> 2 ^ 53"
    and "m \<in> set ms"
  shows "match_stats_of allGames m = sum_ms (matchGames_of allGames m)"
  unfolding match_stats_of_def
proof (rule calculateMatchStats_exact)
  show "\<forall>g\<in>set (matchGames_of allGames m). well_scored g"
    using assms(1) by (simp add: matchGames_of_def)
  from match_weight_le [OF assms(3), of allGames] assms(2)
  show "(\<Sum>g\<leftarrow>matchGames_of allGames m. weight g) \<le> 2 ^ 53" by simp
qed

lemma point_contribs_sum:
  "(\<Sum>v\<leftarrow>point_contribs D allGames m k. count_of v)
     = contrib (\<lambda>t. count_of (pair1TotalPoints t)) (\<lambda>t. count_of (pair2TotalPoints t))
         D allGames m k"
  by (simp add: point_contribs_def contrib_def)

lemma point_contribs_numbers:
  assumes "\<forall>g\<in>set allGames. well_scored g"
    and "total_weight ms allGames \<le> 2 ^ 53"
    and "m \<in> set ms"
  shows "\<forall>v\<in>set (point_contribs D allGames m k). is_number (ToNumber v)"
  by (auto simp: point_contribs_def match_stats_of_exact [OF assms] sum_ms_points is_number_def
        split: if_splits)

lemma point_contribs_weight:
  assumes "\<forall>g\<in>set allGames. well_scored g"
    and "total_weight ms allGames \<le> 2 ^ 53"
    and "m \<in> set ms"
  shows "(\<Sum>v\<leftarrow>point_contribs D allGames m k. \<bar>count_of v\<bar>)
           \<le> (\<Sum>g\<leftarrow>matchGames_of allGames m. weight g)"
proof -
  have nn: "0 \<le> (\<Sum>g\<leftarrow>matchGames_of allGames m. weight g)"
    by simp
  from sum_ms_weight [of "matchGames_of allGames m"] nn show ?thesis
    by (auto simp: point_contribs_def match_stats_of_exact [OF assms])
qed

lemma sum_list_map_concat:
  "(\<Sum>v\<leftarrow>concat (map h ms). f v) = (\<Sum>m\<leftarrow>ms. \<Sum>v\<leftarrow>h m. (f v :: int))"
  by (induction ms) simp_all

lemma accumulated_points_exact:
  assumes "\<forall>g\<in>set allGames. well_scored g"
    and "total_weight ms allGames \<le> 2 ^ 53"
  shows "points (accumulated D allGames ms k zero_stats)
           = Num (\<Sum>m\<leftarrow>ms. contrib (\<lambda>t. count_of (pair1TotalPoints t))
                              (\<lambda>t. count_of (pair2TotalPoints t)) D allGames m k)"
proof -
  let ?L = "concat (map (\<lambda>m. point_contribs D allGames m k) ms)"
  have num: "\<forall>v\<in>set ?L. is_number (ToNumber v)"
    using point_contribs_numbers [OF assms] by auto
  have "(\<Sum>v\<leftarrow>?L. \<bar>count_of v\<bar>)
          = (\<Sum>m\<leftarrow>ms. \<Sum>v\<leftarrow>point_contribs D allGames m k. \<bar>count_of v\<bar>)"
    by (rule sum_list_map_concat)
  also have "\<dots> \<le> (\<Sum>m\<leftarrow>ms. \<Sum>g\<leftarrow>matchGames_of allGames m. weight g)"
    by (rule sum_list_mono) (rule point_contribs_weight [OF assms])
  also have "\<dots> \<le> 2 ^ 53"
    using assms(2) by (simp add: total_weight_def)
  finally have bound: "\<bar>0\<bar> + (\<Sum>v\<leftarrow>?L. \<bar>count_of v\<bar>) \<le> 2 ^ 53" by simp
  have "foldl js_add (Num 0) ?L = Num (0 + (\<Sum>v\<leftarrow>?L. count_of v))"
    by (rule foldl_js_add_exact [OF num bound])
  then show ?thesis
    by (simp add: accumulated_def zero_stats_def sum_list_map_concat point_contribs_sum)
qed

text \<open>
  With exact totals, the entries of the standings have finite point totals, and the
  objects of the map are the same for every order of the games and of the matches.
\<close>

lemma pairsWithStats_numeric:
  assumes "\<forall>g\<in>set allGames. well_scored g"
    and "total_weight matches allGames \<le> 2 ^ 53"
  shows "\<forall>e\<in>set (pairsWithStats pairs matches allGames). \<exists>n. points (stats e) = Num n"
  by (auto simp: pairsWithStats_eq entry_def pairStats_of_accumulated
        accumulated_points_exact [OF assms])

lemma total_weight_perm:
  assumes "mset allGames' = mset allGames" and "mset ms' = mset ms"
  shows "total_weight ms' allGames' = total_weight ms allGames"
proof -
  have "(\<Sum>g\<leftarrow>matchGames_of allGames' m. weight g) = (\<Sum>g\<leftarrow>matchGames_of allGames m. weight g)"
    for m
    by (rule sum_list_mset_cong) (rule matchGames_of_perm [OF assms(1)])
  then have "total_weight ms' allGames' = total_weight ms' allGames"
    by (simp add: total_weight_def)
  also have "\<dots> = total_weight ms allGames"
    unfolding total_weight_def by (rule sum_list_mset_cong [OF assms(2)])
  finally show ?thesis .
qed

lemma contrib_perm:
  assumes "\<forall>g\<in>set allGames. well_scored g"
    and "total_weight ms allGames \<le> 2 ^ 53"
    and "mset allGames' = mset allGames"
    and "m \<in> set ms"
  shows "contrib f1 f2 D allGames' m k = contrib f1 f2 D allGames m k"
proof -
  have ws': "\<forall>g\<in>set allGames'. well_scored g"
    using assms(1) mset_eq_setD [OF assms(3)] by simp
  have tw': "total_weight ms allGames' \<le> 2 ^ 53"
    using assms(2) total_weight_perm [OF assms(3), of ms ms] by simp
  have p: "mset (matchGames_of allGames' m) = mset (matchGames_of allGames m)"
    by (rule matchGames_of_perm [OF assms(3)])
  then have e: "(matchGames_of allGames' m = []) = (matchGames_of allGames m = [])"
    by (metis mset_zero_iff)
  have "match_stats_of allGames' m = match_stats_of allGames m"
    by (simp only: match_stats_of_exact [OF ws' tw' assms(4)]
          match_stats_of_exact [OF assms(1,2,4)] sum_ms_perm [OF p])
  with e show ?thesis
    by (simp add: contrib_def applies_def counted_def)
qed

lemma sum_contrib_perm:
  assumes "\<forall>g\<in>set allGames. well_scored g"
    and "total_weight ms allGames \<le> 2 ^ 53"
    and "mset allGames' = mset allGames"
    and "mset ms' = mset ms"
  shows "(\<Sum>m\<leftarrow>ms'. contrib f1 f2 D allGames' m k) = (\<Sum>m\<leftarrow>ms. contrib f1 f2 D allGames m k)"
proof -
  have "(\<Sum>m\<leftarrow>ms'. contrib f1 f2 D allGames' m k) = (\<Sum>m\<leftarrow>ms. contrib f1 f2 D allGames' m k)"
    by (rule sum_list_mset_cong [OF assms(4)])
  also have "\<dots> = (\<Sum>m\<leftarrow>ms. contrib f1 f2 D allGames m k)"
    by (rule arg_cong [where f = sum_list], rule map_cong [OF refl])
       (rule contrib_perm [OF assms(1,2,3)])
  finally show ?thesis .
qed

lemma accumulated_perm:
  assumes "\<forall>g\<in>set allGames. well_scored g"
    and "total_weight ms allGames \<le> 2 ^ 53"
    and "mset allGames' = mset allGames"
    and "mset ms' = mset ms"
  shows "accumulated D allGames' ms' k zero_stats = accumulated D allGames ms k zero_stats"
proof -
  have ws': "\<forall>g\<in>set allGames'. well_scored g"
    using assms(1) mset_eq_setD [OF assms(3)] by simp
  have tw': "total_weight ms' allGames' \<le> 2 ^ 53"
    using assms(2) total_weight_perm [OF assms(3,4)] by simp
  have "points (accumulated D allGames' ms' k zero_stats)
          = points (accumulated D allGames ms k zero_stats)"
    by (simp only: accumulated_points_exact [OF ws' tw'] accumulated_points_exact [OF assms(1,2)]
          sum_contrib_perm [OF assms])
  moreover have "gamesWon (accumulated D allGames' ms' k zero_stats)
          = gamesWon (accumulated D allGames ms k zero_stats)"
    by (simp add: accumulated_def sum_contrib_perm [OF assms])
  moreover have "setsWon (accumulated D allGames' ms' k zero_stats)
          = setsWon (accumulated D allGames ms k zero_stats)"
    by (simp add: accumulated_def sum_contrib_perm [OF assms])
  moreover have "matchesPlayed (accumulated D allGames' ms' k zero_stats)
          = matchesPlayed (accumulated D allGames ms k zero_stats)"
    by (simp add: accumulated_def sum_contrib_perm [OF assms])
  ultimately show ?thesis by (intro Stats.equality) simp_all
qed

lemma pairStats_of_perm:
  assumes "\<forall>g\<in>set allGames. well_scored g"
    and "total_weight matches allGames \<le> 2 ^ 53"
    and "mset allGames' = mset allGames"
    and "mset matches' = mset matches"
  shows "pairStats_of pairs matches' allGames' = pairStats_of pairs matches allGames"
  by (rule ext) (simp add: pairStats_of_accumulated accumulated_perm [OF assms])

text \<open>
  Beyond \<open>2 ^ 53\<close> the order of the additions shows: the three games of \<open>large_games\<close>
  give side 1 the points \<open>2 ^ 53\<close>, and in the reverse order \<open>2 ^ 53 + 2\<close>.
\<close>

lemma ulp_exp_example: "ulp_exp 9007199254740993 = 1"
  by (simp add: ulp_exp.simps)

lemma round_double_example: "round_double 9007199254740993 = Num 9007199254740992"
  by (simp add: round_double_def Let_def ulp_exp_example)

lemma ulp_exp_example_even: "ulp_exp 9007199254740994 = 1"
  by (simp add: ulp_exp.simps)

lemma round_double_example_even: "round_double 9007199254740994 = Num 9007199254740994"
  by (simp add: round_double_def Let_def ulp_exp_example_even)

lemma large_games_order:
  "pair1TotalPoints (calculateMatchStats (example_match ''finished'') large_games)
     = Num (2 ^ 53)"
  "pair1TotalPoints (calculateMatchStats (example_match ''finished'') (rev large_games))
     = Num (2 ^ 53 + 2)"
  by (simp_all add: calculateMatchStats_def large_games_def example_game_def game_step_def
      zero_match_stats_def js_add_def round_double_example round_double_example_even
      round_double_exact)


section \<open>The ranking\<close>

text \<open>
  For two entries with finite point totals the comparator returns a number of the sign of
  \<open>chain_value\<close>: the difference of the points may be rounded, its sign is not.
\<close>

lemma SortCompare_sort_value: "SortCompare cmp x y = sort_value (ToNumber (cmp x y))"
  by (simp add: SortCompare_def sort_value_def split: jsval.split)

lemma compare_pairs_numeric:
  assumes "points (stats a) = Num pa" and "points (stats b) = Num pb"
  shows "ToNumber (compare_pairs lc a b) =
           (if pb \<noteq> pa then round_double (pb - pa) else Num (chain_value lc a b))"
proof (cases "pb = pa")
  case True
  with assms show ?thesis
    by (simp add: compare_pairs_def chain_value_def js_strict_neq_def Let_def)
next
  case False
  from round_double_large [of "pb - pa"] round_double_exact [of "pb - pa"]
  have "ToNumber (round_double (pb - pa)) = round_double (pb - pa)"
    by (cases "\<bar>pb - pa\<bar> \<le> 2 ^ 53") (auto split: if_splits)
  with False assms show ?thesis
    by (simp add: compare_pairs_def js_strict_neq_def js_sub_def)
qed

lemma SortCompare_sign:
  assumes "points (stats a) = Num pa" and "points (stats b) = Num pb"
  shows "(SortCompare (compare_pairs lc) a b < 0) = (chain_value lc a b < 0)"
    and "(0 < SortCompare (compare_pairs lc) a b) = (0 < chain_value lc a b)"
    and "(SortCompare (compare_pairs lc) a b \<le> 0) = (chain_value lc a b \<le> 0)"
proof -
  show n: "(SortCompare (compare_pairs lc) a b < 0) = (chain_value lc a b < 0)"
    by (cases "pb = pa")
       (simp_all add: SortCompare_sort_value compare_pairs_numeric [OF assms]
          sort_value_round_double, simp_all add: sort_value_def chain_value_def assms)
  show p: "(0 < SortCompare (compare_pairs lc) a b) = (0 < chain_value lc a b)"
    by (cases "pb = pa")
       (simp_all add: SortCompare_sort_value compare_pairs_numeric [OF assms]
          sort_value_round_double, simp_all add: sort_value_def chain_value_def assms)
  from p show "(SortCompare (compare_pairs lc) a b \<le> 0) = (chain_value lc a b \<le> 0)"
    by (simp only: not_less [symmetric])
qed

lemma chain_value_numeric:
  assumes "points (stats a) = Num pa" and "points (stats b) = Num pb"
  shows "chain_value lc a b =
           (if pb \<noteq> pa then pb - pa
            else if setsWon (stats b) \<noteq> setsWon (stats a)
              then setsWon (stats b) - setsWon (stats a)
            else if gamesWon (stats b) \<noteq> gamesWon (stats a)
              then gamesWon (stats b) - gamesWon (stats a)
            else lc (display_name (pair a)) (display_name (pair b)))"
  by (simp add: chain_value_def assms)

lemma rank_key_less:
  assumes "points (stats a) = Num pa" and "points (stats b) = Num pb"
  shows "(rank_key b < rank_key a) =
           (pb < pa \<or> pa = pb \<and>
              (setsWon (stats b) < setsWon (stats a) \<or>
               setsWon (stats a) = setsWon (stats b) \<and> gamesWon (stats b) < gamesWon (stats a)))"
  using assms by (auto simp: rank_key_def)

lemma SortCompare_rank:
  assumes "points (stats a) = Num pa" and "points (stats b) = Num pb"
  shows "SortCompare (compare_pairs lc) a b \<le> 0 \<Longrightarrow> rank_key b \<le> rank_key a"
    and "0 < SortCompare (compare_pairs lc) a b \<Longrightarrow> rank_key a \<le> rank_key b"
  using assms
  by (auto simp: SortCompare_sign [OF assms] chain_value_numeric [OF assms] rank_key_def
        split: if_splits)

lemma set_insert_sorted [simp]: "set (insert_sorted cmp x ys) = insert x (set ys)"
  by (induction ys) auto

lemma set_js_sort [simp]: "set (js_sort cmp xs) = set xs"
  by (induction xs) auto

lemma mset_insert_sorted [simp]: "mset (insert_sorted cmp x ys) = add_mset x (mset ys)"
  by (induction ys) auto

lemma mset_js_sort [simp]: "mset (js_sort cmp xs) = mset xs"
  by (induction xs) auto

lemma sorted_wrt_insert_sorted:
  assumes "sorted_wrt R ys"
    and "insert x (set ys) \<subseteq> S"
    and "\<And>u v w. u \<in> S \<Longrightarrow> v \<in> S \<Longrightarrow> w \<in> S \<Longrightarrow> R u v \<Longrightarrow> R v w \<Longrightarrow> R u w"
    and "\<And>u v. u \<in> S \<Longrightarrow> v \<in> S \<Longrightarrow> SortCompare cmp u v \<le> 0 \<Longrightarrow> R u v"
    and "\<And>u v. u \<in> S \<Longrightarrow> v \<in> S \<Longrightarrow> 0 < SortCompare cmp u v \<Longrightarrow> R v u"
  shows "sorted_wrt R (insert_sorted cmp x ys)"
  using assms(1,2)
proof (induction ys)
  case Nil
  then show ?case by simp
next
  case (Cons y ys)
  show ?case
  proof (cases "SortCompare cmp x y \<le> 0")
    case True
    from Cons.prems(2) have xS: "x \<in> S" and yS: "y \<in> S" by simp_all
    from assms(4) [OF xS yS True] have xy: "R x y" .
    have "R x z" if "z \<in> set ys" for z
    proof -
      from that Cons.prems(1) have yz: "R y z" by simp
      from that Cons.prems(2) have zS: "z \<in> S" by auto
      from assms(3) [OF xS yS zS xy yz] show ?thesis .
    qed
    with True xy Cons.prems(1) show ?thesis by simp
  next
    case False
    from Cons.prems(2) have xS: "x \<in> S" and yS: "y \<in> S" by simp_all
    from False have "0 < SortCompare cmp x y" by simp
    from assms(5) [OF xS yS this] have yx: "R y x" .
    from Cons.prems have "sorted_wrt R (insert_sorted cmp x ys)"
      by (intro Cons.IH) auto
    with False yx Cons.prems(1) show ?thesis by simp
  qed
qed

lemma sorted_wrt_js_sort:
  assumes "set xs \<subseteq> S"
    and "\<And>u v w. u \<in> S \<Longrightarrow> v \<in> S \<Longrightarrow> w \<in> S \<Longrightarrow> R u v \<Longrightarrow> R v w \<Longrightarrow> R u w"
    and "\<And>u v. u \<in> S \<Longrightarrow> v \<in> S \<Longrightarrow> SortCompare cmp u v \<le> 0 \<Longrightarrow> R u v"
    and "\<And>u v. u \<in> S \<Longrightarrow> v \<in> S \<Longrightarrow> 0 < SortCompare cmp u v \<Longrightarrow> R v u"
  shows "sorted_wrt R (js_sort cmp xs)"
  using assms(1)
proof (induction xs)
  case Nil
  then show ?case by simp
next
  case (Cons x xs)
  then have a: "sorted_wrt R (js_sort cmp xs)" by simp
  from Cons.prems have b: "insert x (set (js_sort cmp xs)) \<subseteq> S" by simp
  have "sorted_wrt R (insert_sorted cmp x (js_sort cmp xs))"
    by (rule sorted_wrt_insert_sorted [OF a b]) (fact assms(2,3,4))+
  then show ?case by simp
qed

lemma js_sort_by_rank:
  assumes "\<forall>e\<in>set es. \<exists>n. points (stats e) = Num n"
  shows "sorted_wrt (\<lambda>x y. rank_key y \<le> rank_key x) (js_sort (compare_pairs lc) es)"
proof (rule sorted_wrt_js_sort [where S = "set es"])
  show "set es \<subseteq> set es" by simp
next
  fix u v w :: PairWithStats
  assume "rank_key v \<le> rank_key u" "rank_key w \<le> rank_key v"
  then show "rank_key w \<le> rank_key u" by (rule order_trans [rotated])
next
  fix u v assume "u \<in> set es" "v \<in> set es"
  with assms obtain pu pv where n: "points (stats u) = Num pu" "points (stats v) = Num pv"
    by blast
  show "SortCompare (compare_pairs lc) u v \<le> 0 \<Longrightarrow> rank_key v \<le> rank_key u"
    by (rule SortCompare_rank(1) [OF n])
  show "0 < SortCompare (compare_pairs lc) u v \<Longrightarrow> rank_key u \<le> rank_key v"
    by (rule SortCompare_rank(2) [OF n])
qed

text \<open>
  C1. For two standings entries whose point totals are numbers, the comparator puts the
  first before the second exactly when it has more points, or equal points and more sets
  won, or equal points and sets won and more games won, or all three equal and a display
  name \<open>player1_name/player2_name\<close> that the collation puts first; and the second before
  the first in the mirrored case. In the sorted standings an entry that is ahead of
  another on these three numbers stands before it: in particular with equal points, equal
  sets won and more games won.
\<close>

theorem ranking_comparator_chain:
  assumes "points (stats a) = Num pa" and "points (stats b) = Num pb"
  shows "(SortCompare (compare_pairs lc) a b < 0) =
           (pb < pa \<or> pa = pb \<and>
             (setsWon (stats b) < setsWon (stats a) \<or> setsWon (stats a) = setsWon (stats b) \<and>
               (gamesWon (stats b) < gamesWon (stats a) \<or>
                gamesWon (stats a) = gamesWon (stats b) \<and>
                  lc (display_name (pair a)) (display_name (pair b)) < 0)))
       \<and> (0 < SortCompare (compare_pairs lc) a b) =
           (pa < pb \<or> pa = pb \<and>
             (setsWon (stats a) < setsWon (stats b) \<or> setsWon (stats a) = setsWon (stats b) \<and>
               (gamesWon (stats a) < gamesWon (stats b) \<or>
                gamesWon (stats a) = gamesWon (stats b) \<and>
                  0 < lc (display_name (pair a)) (display_name (pair b)))))
       \<and> ((\<forall>e\<in>set es. \<exists>n. points (stats e) = Num n)
            \<and> (pb < pa \<or> pa = pb \<and>
                 (setsWon (stats b) < setsWon (stats a) \<or>
                  setsWon (stats a) = setsWon (stats b)
                    \<and> gamesWon (stats b) < gamesWon (stats a)))
          \<longrightarrow> (\<forall>i j. i < length es \<and> j < length es
                     \<and> js_sort (compare_pairs lc) es ! i = a
                     \<and> js_sort (compare_pairs lc) es ! j = b \<longrightarrow> i < j))"
proof (intro conjI impI allI)
  show "(SortCompare (compare_pairs lc) a b < 0) =
           (pb < pa \<or> pa = pb \<and>
             (setsWon (stats b) < setsWon (stats a) \<or> setsWon (stats a) = setsWon (stats b) \<and>
               (gamesWon (stats b) < gamesWon (stats a) \<or>
                gamesWon (stats a) = gamesWon (stats b) \<and>
                  lc (display_name (pair a)) (display_name (pair b)) < 0)))"
    by (auto simp: SortCompare_sign [OF assms] chain_value_numeric [OF assms])
  show "(0 < SortCompare (compare_pairs lc) a b) =
           (pa < pb \<or> pa = pb \<and>
             (setsWon (stats a) < setsWon (stats b) \<or> setsWon (stats a) = setsWon (stats b) \<and>
               (gamesWon (stats a) < gamesWon (stats b) \<or>
                gamesWon (stats a) = gamesWon (stats b) \<and>
                  0 < lc (display_name (pair a)) (display_name (pair b)))))"
    by (auto simp: SortCompare_sign [OF assms] chain_value_numeric [OF assms])
next
  fix i j
  let ?ys = "js_sort (compare_pairs lc) es"
  assume h: "(\<forall>e\<in>set es. \<exists>n. points (stats e) = Num n)
            \<and> (pb < pa \<or> pa = pb \<and>
                 (setsWon (stats b) < setsWon (stats a) \<or>
                  setsWon (stats a) = setsWon (stats b)
                    \<and> gamesWon (stats b) < gamesWon (stats a)))"
    and ij: "i < length es \<and> j < length es \<and> ?ys ! i = a \<and> ?ys ! j = b"
  from h have lt: "rank_key b < rank_key a"
    by (simp add: rank_key_less [OF assms])
  from h have s: "sorted_wrt (\<lambda>x y. rank_key y \<le> rank_key x) ?ys"
    by (simp add: js_sort_by_rank)
  have len: "length ?ys = length es"
    by (metis mset_js_sort size_mset)
  show "i < j"
  proof (rule ccontr)
    assume "\<not> i < j"
    then consider "j < i" | "i = j" by linarith
    then show False
    proof cases
      case 1
      from ij len have "i < length ?ys" by simp
      from sorted_wrt_nth_less [OF s 1 this]
      have "rank_key (?ys ! i) \<le> rank_key (?ys ! j)" .
      moreover from ij have "?ys ! i = a" "?ys ! j = b" by simp_all
      ultimately have "rank_key a \<le> rank_key b" by simp
      with lt show False by simp
    next
      case 2
      from ij have "?ys ! i = a" "?ys ! j = b" by simp_all
      with 2 have "a = b" by simp
      with lt show False by simp
    qed
  qed
qed


theorem ranking_comparator_chain_witness:
  "SortCompare (compare_pairs ordinal_compare) (example_entry pair_X 10 2 5)
     (example_entry pair_Y 10 2 3) < 0
 \<and> js_sort (compare_pairs ordinal_compare)
       [example_entry pair_Y 10 2 3, example_entry pair_X 10 2 5]
     = [example_entry pair_X 10 2 5, example_entry pair_Y 10 2 3]"
proof -
  have a: "points (stats (example_entry pair_X 10 2 5)) = Num 10"
    and b: "points (stats (example_entry pair_Y 10 2 3)) = Num 10"
    by (simp_all add: example_entry_def)
  from ranking_comparator_chain [OF a b, of ordinal_compare
      "[example_entry pair_Y 10 2 3, example_entry pair_X 10 2 5]", THEN conjunct1]
  have "SortCompare (compare_pairs ordinal_compare) (example_entry pair_X 10 2 5)
          (example_entry pair_Y 10 2 3) < 0"
    by (simp add: example_entry_def)
  then show ?thesis
    by (simp add: SortCompare_def compare_pairs_def js_strict_neq_def example_entry_def)
qed


section \<open>Order of the input\<close>

lemma pairStats_of_pairs_perm:
  assumes "set pairs' = set pairs"
  shows "pairStats_of pairs' matches allGames = pairStats_of pairs matches allGames"
proof -
  have "init_stats pairs' = init_stats pairs"
    by (rule ext) (simp add: init_stats_apply assms)
  then show ?thesis by (simp add: pairStats_of_def)
qed

lemma sorted_wrt_unique:
  assumes "mset xs = mset ys" and "sorted_wrt R xs" and "sorted_wrt R ys"
    and "\<And>x y. x \<in> set xs \<Longrightarrow> y \<in> set xs \<Longrightarrow> R x y \<Longrightarrow> R y x \<Longrightarrow> x = y"
  shows "xs = ys"
  using assms
proof (induction xs arbitrary: ys)
  case Nil
  then show ?case by simp
next
  case (Cons x xs)
  from Cons.prems(1) obtain y ys' where ys: "ys = y # ys'"
    by (cases ys) auto
  from Cons.prems(1) have sets: "set (x # xs) = set ys"
    by (rule mset_eq_setD)
  have "x = y"
  proof (rule ccontr)
    assume ne: "x \<noteq> y"
    from sets ys ne have "x \<in> set ys'" by auto
    with Cons.prems(3) ys have yx: "R y x" by simp
    from sets ys ne have "y \<in> set xs" by auto
    with Cons.prems(2) have xy: "R x y" by simp
    from sets ys have yin: "y \<in> set (x # xs)" by simp
    from Cons.prems(4) [OF _ yin xy yx] ne show False by simp
  qed
  with Cons.prems(1) ys have m: "mset xs = mset ys'" by simp
  have "xs = ys'"
  proof (rule Cons.IH [OF m])
    from Cons.prems(2) show "sorted_wrt R xs" by simp
    from Cons.prems(3) ys show "sorted_wrt R ys'" by simp
    fix u v assume "u \<in> set xs" "v \<in> set xs" "R u v" "R v u"
    then show "u = v" using Cons.prems(4) [of u v] by simp
  qed
  with \<open>x = y\<close> ys show ?case by simp
qed

lemma rank_key_eq:
  assumes "points (stats a) = Num pa" and "points (stats b) = Num pb"
  shows "(rank_key a = rank_key b) =
           (pa = pb \<and> setsWon (stats a) = setsWon (stats b)
              \<and> gamesWon (stats a) = gamesWon (stats b))"
  using assms by (auto simp: rank_key_def)

lemma SortCompare_le_iff:
  assumes "points (stats a) = Num pa" and "points (stats b) = Num pb"
  shows "(SortCompare (compare_pairs lc) a b \<le> 0) =
           (rank_key b < rank_key a \<or>
            rank_key a = rank_key b \<and> lc (display_name (pair a)) (display_name (pair b)) \<le> 0)"
  unfolding rank_key_eq [OF assms] rank_key_less [OF assms] SortCompare_sign [OF assms]
    chain_value_numeric [OF assms]
  by auto

lemma SortCompare_pos_iff:
  assumes "points (stats a) = Num pa" and "points (stats b) = Num pb"
  shows "(0 < SortCompare (compare_pairs lc) a b) =
           (rank_key a < rank_key b \<or>
            rank_key a = rank_key b \<and> 0 < lc (display_name (pair a)) (display_name (pair b)))"
  unfolding rank_key_eq [OF assms] rank_key_less [OF assms(2,1)] SortCompare_sign [OF assms]
    chain_value_numeric [OF assms]
  by auto

lemma SortCompare_same_rank:
  assumes "points (stats a) = Num pa" and "points (stats b) = Num pb"
    and "rank_key a = rank_key b"
  shows "SortCompare (compare_pairs lc) a b = lc (display_name (pair a)) (display_name (pair b))"
  using assms
  by (simp add: rank_key_eq [OF assms(1,2)] SortCompare_def compare_pairs_def js_strict_neq_def
        Let_def)


lemma js_sort_perm_unique:
  assumes perm: "mset es' = mset es"
    and num: "\<forall>e\<in>set es. \<exists>n. points (stats e) = Num n"
    and l1: "\<forall>x\<in>set es. \<forall>y\<in>set es.
               (lc (display_name (pair x)) (display_name (pair y)) < 0)
                 = (0 < lc (display_name (pair y)) (display_name (pair x)))"
    and l2: "\<forall>x\<in>set es. \<forall>y\<in>set es. \<forall>z\<in>set es.
               lc (display_name (pair x)) (display_name (pair y)) \<le> 0
               \<and> lc (display_name (pair y)) (display_name (pair z)) \<le> 0
               \<longrightarrow> lc (display_name (pair x)) (display_name (pair z)) \<le> 0"
    and d: "\<forall>x\<in>set es. \<forall>y\<in>set es. x \<noteq> y \<longrightarrow> SortCompare (compare_pairs lc) x y \<noteq> 0"
  shows "js_sort (compare_pairs lc) es' = js_sort (compare_pairs lc) es"
proof -
  let ?c = "SortCompare (compare_pairs lc)"
  let ?R = "\<lambda>x y. ?c x y \<le> 0"
  let ?n = "\<lambda>x. display_name (pair x)"
  have sets: "set es' = set es"
    using perm by (rule mset_eq_setD)
  have tr: "?R u w" if "u \<in> set es" "v \<in> set es" "w \<in> set es" "?R u v" "?R v w" for u v w
  proof -
    from num that(1,2,3) obtain pu pv pw where
      n: "points (stats u) = Num pu" "points (stats v) = Num pv" "points (stats w) = Num pw"
      by blast
    from that(4) have uv: "rank_key v < rank_key u
        \<or> rank_key u = rank_key v \<and> lc (?n u) (?n v) \<le> 0"
      by (simp only: SortCompare_le_iff [OF n(1,2)])
    from that(5) have vw: "rank_key w < rank_key v
        \<or> rank_key v = rank_key w \<and> lc (?n v) (?n w) \<le> 0"
      by (simp only: SortCompare_le_iff [OF n(2,3)])
    from l2 that(1,2,3) have l: "lc (?n u) (?n v) \<le> 0 \<Longrightarrow> lc (?n v) (?n w) \<le> 0
        \<Longrightarrow> lc (?n u) (?n w) \<le> 0"
      by blast
    from uv vw l have "rank_key w < rank_key u
        \<or> rank_key u = rank_key w \<and> lc (?n u) (?n w) \<le> 0"
      by (metis order_less_trans)
    then show ?thesis
      by (simp only: SortCompare_le_iff [OF n(1,3)])
  qed
  have tot: "?R v u" if "u \<in> set es" "v \<in> set es" "0 < ?c u v" for u v
  proof -
    from num that(1,2) obtain pu pv where
      n: "points (stats u) = Num pu" "points (stats v) = Num pv"
      by blast
    from that(3) have uv: "rank_key u < rank_key v
        \<or> rank_key u = rank_key v \<and> 0 < lc (?n u) (?n v)"
      by (simp only: SortCompare_pos_iff [OF n])
    from l1 that(1,2) have "(lc (?n v) (?n u) < 0) = (0 < lc (?n u) (?n v))"
      by blast
    with uv have "rank_key u < rank_key v
        \<or> rank_key v = rank_key u \<and> lc (?n v) (?n u) \<le> 0"
      by auto
    then show ?thesis
      by (simp only: SortCompare_le_iff [OF n(2,1)])
  qed
  have anti: "u = v" if "u \<in> set es" "v \<in> set es" "?R u v" "?R v u" for u v
  proof (rule ccontr)
    assume ne: "u \<noteq> v"
    from num that(1,2) obtain pu pv where
      n: "points (stats u) = Num pu" "points (stats v) = Num pv"
      by blast
    from that(3) have uv: "rank_key v < rank_key u
        \<or> rank_key u = rank_key v \<and> lc (?n u) (?n v) \<le> 0"
      by (simp only: SortCompare_le_iff [OF n])
    from that(4) have vu: "rank_key u < rank_key v
        \<or> rank_key v = rank_key u \<and> lc (?n v) (?n u) \<le> 0"
      by (simp only: SortCompare_le_iff [OF n(2,1)])
    from uv vu have eq: "rank_key u = rank_key v"
      and le: "lc (?n u) (?n v) \<le> 0" "lc (?n v) (?n u) \<le> 0"
      by auto
    from l1 that(1,2) have "(lc (?n u) (?n v) < 0) = (0 < lc (?n v) (?n u))"
      by blast
    with le have "lc (?n u) (?n v) = 0" by auto
    with SortCompare_same_rank [OF n eq, of lc] have "?c u v = 0" by simp
    with d that(1,2) ne show False by blast
  qed
  have s: "sorted_wrt ?R (js_sort (compare_pairs lc) es)"
    by (rule sorted_wrt_js_sort [where S = "set es"]) (auto intro: tr tot)
  have s': "sorted_wrt ?R (js_sort (compare_pairs lc) es')"
    by (rule sorted_wrt_js_sort [where S = "set es"]) (auto simp: sets intro: tr tot)
  show ?thesis
  proof (rule sorted_wrt_unique [OF _ s' s])
    show "mset (js_sort (compare_pairs lc) es') = mset (js_sort (compare_pairs lc) es)"
      by (simp add: perm)
    fix x y
    assume "x \<in> set (js_sort (compare_pairs lc) es')" "y \<in> set (js_sort (compare_pairs lc) es')"
      "?c x y \<le> 0" "?c y x \<le> 0"
    then show "x = y" by (intro anti) (simp_all add: sets)
  qed
qed


lemma pair_entry [simp]: "pair (entry S p) = p"
  by (simp add: entry_def)

lemma sortedPairs_perm:
  assumes "\<forall>g\<in>set allGames. well_scored g"
    and "total_weight matches allGames \<le> 2 ^ 53"
    and "mset allGames' = mset allGames" and "mset matches' = mset matches"
  shows "sortedPairs lc pairs matches' allGames' = sortedPairs lc pairs matches allGames"
  by (simp add: sortedPairs_def pairsWithStats_eq pairStats_of_perm [OF assms])

lemma pairsWithStats_all_perm:
  assumes "\<forall>g\<in>set allGames. well_scored g"
    and "total_weight matches allGames \<le> 2 ^ 53"
    and "mset allGames' = mset allGames" and "mset matches' = mset matches"
    and "mset pairs' = mset pairs"
  shows "pairsWithStats pairs' matches' allGames'
           = map (entry (pairStats_of pairs matches allGames)) pairs'"
proof -
  from assms(5) have "set pairs' = set pairs" by (rule mset_eq_setD)
  then have "pairStats_of pairs' matches' allGames' = pairStats_of pairs matches' allGames'"
    by (rule pairStats_of_pairs_perm)
  also have "\<dots> = pairStats_of pairs matches allGames"
    by (rule pairStats_of_perm [OF assms(1,2,3,4)])
  finally show ?thesis by (simp add: pairsWithStats_eq)
qed

lemma mset_sortedPairs_perm:
  assumes "\<forall>g\<in>set allGames. well_scored g"
    and "total_weight matches allGames \<le> 2 ^ 53"
    and "mset allGames' = mset allGames" and "mset matches' = mset matches"
    and "mset pairs' = mset pairs"
  shows "mset (sortedPairs lc pairs' matches' allGames')
           = mset (sortedPairs lc pairs matches allGames)"
  by (simp add: sortedPairs_def pairsWithStats_all_perm [OF assms] assms(5))
     (simp add: pairsWithStats_eq)

lemma sortedPairs_all_perm:
  assumes ws: "\<forall>g\<in>set allGames. well_scored g"
    and tw: "total_weight matches allGames \<le> 2 ^ 53"
    and g: "mset allGames' = mset allGames" and m: "mset matches' = mset matches"
    and p: "mset pairs' = mset pairs"
    and l1: "\<forall>p\<in>set pairs. \<forall>q\<in>set pairs.
            (lc (display_name p) (display_name q) < 0) = (0 < lc (display_name q) (display_name p))"
    and l2: "\<forall>p\<in>set pairs. \<forall>q\<in>set pairs. \<forall>r\<in>set pairs.
            lc (display_name p) (display_name q) \<le> 0 \<and> lc (display_name q) (display_name r) \<le> 0
            \<longrightarrow> lc (display_name p) (display_name r) \<le> 0"
    and d: "\<forall>x\<in>set (pairsWithStats pairs matches allGames).
          \<forall>y\<in>set (pairsWithStats pairs matches allGames).
            x \<noteq> y \<longrightarrow> SortCompare (compare_pairs lc) x y \<noteq> 0"
  shows "sortedPairs lc pairs' matches' allGames' = sortedPairs lc pairs matches allGames"
proof -
  let ?S = "pairStats_of pairs matches allGames"
  let ?E = "pairsWithStats pairs matches allGames"
  have num: "\<forall>e\<in>set ?E. \<exists>n. points (stats e) = Num n"
    by (rule pairsWithStats_numeric [OF ws tw])
  have E: "?E = map (entry ?S) pairs"
    by (rule pairsWithStats_eq)
  have perm: "mset (pairsWithStats pairs' matches' allGames') = mset ?E"
    by (simp only: pairsWithStats_all_perm [OF ws tw g m p] E mset_map p)
  have inp: "pair x \<in> set pairs" if "x \<in> set ?E" for x
    using that by (auto simp: E)
  have "js_sort (compare_pairs lc) (pairsWithStats pairs' matches' allGames')
          = js_sort (compare_pairs lc) ?E"
  proof (rule js_sort_perm_unique [OF perm num _ _ d])
    show "\<forall>x\<in>set ?E. \<forall>y\<in>set ?E.
               (lc (display_name (pair x)) (display_name (pair y)) < 0)
                 = (0 < lc (display_name (pair y)) (display_name (pair x)))"
    proof (intro ballI)
      fix x y assume "x \<in> set ?E" "y \<in> set ?E"
      then have "pair x \<in> set pairs" "pair y \<in> set pairs" by (simp_all only: inp)
      with l1 show "(lc (display_name (pair x)) (display_name (pair y)) < 0)
                 = (0 < lc (display_name (pair y)) (display_name (pair x)))"
        by blast
    qed
    show "\<forall>x\<in>set ?E. \<forall>y\<in>set ?E. \<forall>z\<in>set ?E.
               lc (display_name (pair x)) (display_name (pair y)) \<le> 0
               \<and> lc (display_name (pair y)) (display_name (pair z)) \<le> 0
               \<longrightarrow> lc (display_name (pair x)) (display_name (pair z)) \<le> 0"
    proof (intro ballI)
      fix x y z assume "x \<in> set ?E" "y \<in> set ?E" "z \<in> set ?E"
      then have "pair x \<in> set pairs" "pair y \<in> set pairs" "pair z \<in> set pairs"
        by (simp_all only: inp)
      with l2 show "lc (display_name (pair x)) (display_name (pair y)) \<le> 0
               \<and> lc (display_name (pair y)) (display_name (pair z)) \<le> 0
               \<longrightarrow> lc (display_name (pair x)) (display_name (pair z)) \<le> 0"
        by blast
    qed
  qed
  then show ?thesis
    by (simp only: sortedPairs_def)
qed

text \<open>
  C7, amended. Take data in which every game adds finite numbers to the points (its
  counts are integers, or \<open>null\<close>) and the sizes of these numbers, summed over the games
  of every match, stay within \<open>2 ^ 53\<close>, so that no point total is a rounded sum.
  Permuting the games and permuting the matches changes nothing in the sorted standings.
  Permuting the pairs as well leaves the same entries with the same statistics; their
  order is the same when no two different entries compare equal, the collation being
  consistent on the display names (the sign of a comparison flips with its arguments,
  and before-or-equal is transitive).
\<close>

theorem standings_permutation:
  assumes "\<forall>g\<in>set allGames. well_scored g"
    and "total_weight matches allGames \<le> 2 ^ 53"
    and "mset allGames' = mset allGames"
    and "mset matches' = mset matches"
  shows "sortedPairs lc pairs matches' allGames' = sortedPairs lc pairs matches allGames
       \<and> (mset pairs' = mset pairs
            \<longrightarrow> mset (sortedPairs lc pairs' matches' allGames')
                  = mset (sortedPairs lc pairs matches allGames))
       \<and> (mset pairs' = mset pairs
          \<and> (\<forall>p\<in>set pairs. \<forall>q\<in>set pairs.
                (lc (display_name p) (display_name q) < 0)
                  = (0 < lc (display_name q) (display_name p)))
          \<and> (\<forall>p\<in>set pairs. \<forall>q\<in>set pairs. \<forall>r\<in>set pairs.
                lc (display_name p) (display_name q) \<le> 0
                \<and> lc (display_name q) (display_name r) \<le> 0
                \<longrightarrow> lc (display_name p) (display_name r) \<le> 0)
          \<and> (\<forall>x\<in>set (pairsWithStats pairs matches allGames).
              \<forall>y\<in>set (pairsWithStats pairs matches allGames).
                x \<noteq> y \<longrightarrow> SortCompare (compare_pairs lc) x y \<noteq> 0)
          \<longrightarrow> sortedPairs lc pairs' matches' allGames' = sortedPairs lc pairs matches allGames)"
proof (intro conjI impI)
  show "sortedPairs lc pairs matches' allGames' = sortedPairs lc pairs matches allGames"
    by (rule sortedPairs_perm [OF assms])
next
  assume "mset pairs' = mset pairs"
  then show "mset (sortedPairs lc pairs' matches' allGames')
                 = mset (sortedPairs lc pairs matches allGames)"
    by (rule mset_sortedPairs_perm [OF assms])
next
  assume "mset pairs' = mset pairs
          \<and> (\<forall>p\<in>set pairs. \<forall>q\<in>set pairs.
                (lc (display_name p) (display_name q) < 0)
                  = (0 < lc (display_name q) (display_name p)))
          \<and> (\<forall>p\<in>set pairs. \<forall>q\<in>set pairs. \<forall>r\<in>set pairs.
                lc (display_name p) (display_name q) \<le> 0
                \<and> lc (display_name q) (display_name r) \<le> 0
                \<longrightarrow> lc (display_name p) (display_name r) \<le> 0)
          \<and> (\<forall>x\<in>set (pairsWithStats pairs matches allGames).
              \<forall>y\<in>set (pairsWithStats pairs matches allGames).
                x \<noteq> y \<longrightarrow> SortCompare (compare_pairs lc) x y \<noteq> 0)"
  then show "sortedPairs lc pairs' matches' allGames' = sortedPairs lc pairs matches allGames"
    by (elim conjE) (rule sortedPairs_all_perm [OF assms])
qed

text \<open>
  C7, as stated, fails for the pairs: two pairs with the same two player names and no
  match compare equal, and the stable sort leaves them in the order of the input.
\<close>

theorem pairs_order_counterexample:
  "sortedPairs ordinal_compare [pair_X, pair_X_namesake] [] []
     \<noteq> sortedPairs ordinal_compare [pair_X_namesake, pair_X] [] []"
  by (simp add: sortedPairs_def pairsWithStats_def SortCompare_def compare_pairs_def
      js_strict_neq_def display_name_def pair_X_def pair_X_namesake_def example_pair_def)

lemma example_standings:
  "pairsWithStats [pair_X, pair_Y] [example_match ''finished''] example_games
     = [example_entry pair_X 17 2 2, example_entry pair_Y 14 2 1]"
  by (simp add: pairsWithStats_def pairStats_of_def init_stats_def match_step_def accumulate_def
       upd_def calculateMatchStats_def game_step_def zero_match_stats_def zero_stats_def
       example_games_def example_game_def example_match_def pair_X_def pair_Y_def
       example_pair_def example_entry_def Let_def)

lemma example_names:
  "ordinal_compare (display_name pair_X) (display_name pair_Y) = - 1"
  "ordinal_compare (display_name pair_Y) (display_name pair_X) = 1"
  "ordinal_compare (display_name pair_X) (display_name pair_X) = 0"
  "ordinal_compare (display_name pair_Y) (display_name pair_Y) = 0"
  by (simp_all add: display_name_def pair_X_def pair_Y_def example_pair_def)

theorem standings_permutation_witness:
  "sortedPairs ordinal_compare [pair_Y, pair_X] [example_match ''finished''] (rev example_games)
     = sortedPairs ordinal_compare [pair_X, pair_Y] [example_match ''finished''] example_games
 \<and> sortedPairs ordinal_compare [pair_X, pair_Y] [example_match ''finished''] example_games
     = [example_entry pair_X 17 2 2, example_entry pair_Y 14 2 1]"
proof -
  let ?E = "pairsWithStats [pair_X, pair_Y] [example_match ''finished''] example_games"
  have ws: "\<forall>g\<in>set example_games. well_scored g"
    by (simp add: example_games_def example_game_def well_scored_def game_delta_def
        is_number_def)
  have tw: "total_weight [example_match ''finished''] example_games \<le> 2 ^ 53"
    by (simp add: total_weight_def matchGames_of_def weight_def game_delta_def
        example_match_def example_games_def example_game_def)
  have g: "mset (rev example_games) = mset example_games" by simp
  have m: "mset [example_match ''finished''] = mset [example_match ''finished'']" by simp
  have p: "mset [pair_Y, pair_X] = mset [pair_X, pair_Y]" by simp
  have l1: "\<forall>p\<in>set [pair_X, pair_Y]. \<forall>q\<in>set [pair_X, pair_Y].
              (ordinal_compare (display_name p) (display_name q) < 0)
                = (0 < ordinal_compare (display_name q) (display_name p))"
    by (simp add: example_names)
  have l2: "\<forall>p\<in>set [pair_X, pair_Y]. \<forall>q\<in>set [pair_X, pair_Y]. \<forall>r\<in>set [pair_X, pair_Y].
              ordinal_compare (display_name p) (display_name q) \<le> 0
              \<and> ordinal_compare (display_name q) (display_name r) \<le> 0
              \<longrightarrow> ordinal_compare (display_name p) (display_name r) \<le> 0"
    by (simp add: example_names)
  have d: "\<forall>x\<in>set ?E. \<forall>y\<in>set ?E.
             x \<noteq> y \<longrightarrow> SortCompare (compare_pairs ordinal_compare) x y \<noteq> 0"
    by (simp add: example_standings example_entry_def SortCompare_def compare_pairs_def
        js_strict_neq_def js_sub_def round_double_exact)
  note t = standings_permutation
    [OF ws tw g m, of ordinal_compare "[pair_X, pair_Y]" "[pair_Y, pair_X]",
     THEN conjunct2, THEN conjunct2, rule_format]
  have "sortedPairs ordinal_compare [pair_Y, pair_X] [example_match ''finished'']
          (rev example_games)
        = sortedPairs ordinal_compare [pair_X, pair_Y] [example_match ''finished'']
            example_games"
    by (rule t) (intro conjI p l1 l2 d)
  moreover have "sortedPairs ordinal_compare [pair_X, pair_Y] [example_match ''finished'']
                   example_games
                 = [example_entry pair_X 17 2 2, example_entry pair_Y 14 2 1]"
    by (simp add: sortedPairs_def example_standings SortCompare_def compare_pairs_def
        js_strict_neq_def js_sub_def round_double_exact example_entry_def)
  ultimately show ?thesis by simp
qed

end
